theory Spec2Isabelle
  imports Main "HOL-Library.Sublist"
begin

section \<open>Batch conversion of images to WebP: a model of \<^verbatim>\<open>convert_to_webp.py\<close>\<close>

text \<open>
  The script scans the current directory for images, converts each one with the
  external tools \<^verbatim>\<open>sips\<close> and \<^verbatim>\<open>cwebp\<close>, copies metadata with \<^verbatim>\<open>exiftool\<close> and
  prints a summary. The model below follows the script function by function.
  Paths are strings, the disk is the list of paths that exist, external tools
  are a parameter of the model, Python exceptions are values of a sum type and
  \<^verbatim>\<open>print\<close> is left out.
\<close>

subsection \<open>Configuration (lines 8 to 12)\<close>

type_synonym path = string

definition input_dir :: path where
  "input_dir = ''.''"

definition output_dir :: path where
  "output_dir = ''webp_output''"

definition quality :: nat where
  "quality = 80"

definition formats :: "string list" where
  "formats = [''.jpg'', ''.jpeg'', ''.png'', ''.heic'', ''.HEIC'', ''.JPG'', ''.JPEG'', ''.PNG'']"

subsection \<open>Strings and \<^verbatim>\<open>pathlib\<close>\<close>

text \<open>
  \<^verbatim>\<open>str(n)\<close> for a natural number: its decimal digits, most significant first.
\<close>

definition digit_char :: "nat \<Rightarrow> char" where
  "digit_char d = ''0123456789'' ! d"

fun str_nat :: "nat \<Rightarrow> string" where
  "str_nat n = (if n < 10 then [digit_char n] else str_nat (n div 10) @ [digit_char (n mod 10)])"

declare str_nat.simps [simp del]

text \<open>
  \<^verbatim>\<open>str.lower()\<close> on the ASCII letters; every other character is kept. The file names
  that reach the comparison in the main loop end with one of the extensions of
  \<^const>\<open>formats\<close>, which are ASCII.
\<close>

definition lower_char :: "char \<Rightarrow> char" where
  "lower_char c =
     (case map_of (zip ''ABCDEFGHIJKLMNOPQRSTUVWXYZ'' ''abcdefghijklmnopqrstuvwxyz'') c of
        Some l \<Rightarrow> l
      | None \<Rightarrow> c)"

definition lower :: "string \<Rightarrow> string" where
  "lower s = map lower_char s"

text \<open>
  \<^verbatim>\<open>str.rfind(c)\<close>: the index of the last occurrence of a character, or \<open>-1\<close>.
\<close>

definition rfind :: "char \<Rightarrow> string \<Rightarrow> int" where
  "rfind c s =
     (if c \<in> set s then int (length s) - 1 - int (length (takeWhile (\<lambda>x. x \<noteq> c) (rev s)))
      else - 1)"

text \<open>
  \<^verbatim>\<open>PurePath.suffix\<close> and \<^verbatim>\<open>PurePath.stem\<close> of a path that is a bare file name:
  \<^verbatim>\<open>i = name.rfind('.')\<close>; when \<^verbatim>\<open>0 < i < len(name) - 1\<close> the suffix is
  \<^verbatim>\<open>name[i:]\<close> and the stem \<^verbatim>\<open>name[:i]\<close>, otherwise the suffix is empty and the
  stem is the whole name.
\<close>

definition suffix_of :: "path \<Rightarrow> string" where
  "suffix_of name =
     (let i = rfind CHR ''.'' name
      in if 0 < i \<and> i < int (length name) - 1 then drop (nat i) name else [])"

definition stem_of :: "path \<Rightarrow> string" where
  "stem_of name =
     (let i = rfind CHR ''.'' name
      in if 0 < i \<and> i < int (length name) - 1 then take (nat i) name else name)"

text \<open>\<^verbatim>\<open>Path(dir) / name\<close> for a relative directory and a bare file name.\<close>

definition join_path :: "path \<Rightarrow> string \<Rightarrow> path" where
  "join_path dir name = dir @ ''/'' @ name"

subsection \<open>The output namer (lines 81 to 90)\<close>

text \<open>
  The disk is the list \<open>fs\<close> of the paths that exist; \<^verbatim>\<open>output_path.exists()\<close> is
  membership in it. \<open>plain_path\<close> is the path built on line 84 and \<open>numbered_path\<close>
  the one built on line 87.
\<close>

definition plain_path :: "path \<Rightarrow> string \<Rightarrow> path" where
  "plain_path dir stem = join_path dir (stem @ ''.webp'')"

definition numbered_path :: "path \<Rightarrow> string \<Rightarrow> nat \<Rightarrow> path" where
  "numbered_path dir stem counter = join_path dir (stem @ ''_'' @ str_nat counter @ ''.webp'')"

lemma digit_char_inj: "a < 10 \<Longrightarrow> b < 10 \<Longrightarrow> digit_char a = digit_char b \<Longrightarrow> a = b"
proof -
  assume a: "a < 10" and b: "b < 10" and e: "digit_char a = digit_char b"
  have da: "a \<in> {0, 1, 2, 3, 4, 5, 6, 7, 8, 9}" using a by auto
  have db: "b \<in> {0, 1, 2, 3, 4, 5, 6, 7, 8, 9}" using b by auto
  show ?thesis using da db e by (auto simp: digit_char_def)
qed

lemma str_nat_not_Nil: "str_nat n \<noteq> []"
  by (subst str_nat.simps) simp

lemma str_nat_inj: "str_nat a = str_nat b \<Longrightarrow> a = b"
proof (induction a arbitrary: b rule: str_nat.induct)
  case (1 n)
  show ?case
  proof (cases "n < 10")
    case small: True
    show ?thesis
    proof (cases "b < 10")
      case True
      with small "1.prems" show ?thesis
        by (subst (asm) str_nat.simps, subst (asm) (2) str_nat.simps)
           (simp add: digit_char_inj)
    next
      case False
      have "str_nat b = str_nat (b div 10) @ [digit_char (b mod 10)]"
        using False by (subst str_nat.simps) simp
      moreover have "str_nat n = [digit_char n]"
        using small by (subst str_nat.simps) simp
      ultimately show ?thesis
        using "1.prems" str_nat_not_Nil [of "b div 10"] by (cases "str_nat (b div 10)") auto
    qed
  next
    case big: False
    have n: "str_nat n = str_nat (n div 10) @ [digit_char (n mod 10)]"
      using big by (subst str_nat.simps) simp
    show ?thesis
    proof (cases "b < 10")
      case True
      have "str_nat b = [digit_char b]"
        using True by (subst str_nat.simps) simp
      with n "1.prems" str_nat_not_Nil [of "n div 10"] show ?thesis
        by (cases "str_nat (n div 10)") auto
    next
      case False
      have b: "str_nat b = str_nat (b div 10) @ [digit_char (b mod 10)]"
        using False by (subst str_nat.simps) simp
      from n b "1.prems" have q: "str_nat (n div 10) = str_nat (b div 10)"
        and r: "digit_char (n mod 10) = digit_char (b mod 10)"
        by simp_all
      have "n div 10 = b div 10"
        using "1.IH" [OF big q] .
      moreover have "n mod 10 = b mod 10"
        using r by (intro digit_char_inj) simp_all
      ultimately show ?thesis
        by (metis div_mult_mod_eq)
    qed
  qed
qed

lemma numbered_path_inj: "numbered_path dir stem a = numbered_path dir stem b \<Longrightarrow> a = b"
  by (simp add: numbered_path_def join_path_def str_nat_inj)

text \<open>
  The \<^verbatim>\<open>while\<close> loop of lines 86 to 88, with its two variables as arguments. It
  ends because the numbered paths are pairwise different and only finitely many of
  them exist.
\<close>

definition later_taken :: "path list \<Rightarrow> path \<Rightarrow> string \<Rightarrow> nat \<Rightarrow> nat set" where
  "later_taken fs dir stem counter = {k. counter \<le> k \<and> numbered_path dir stem k \<in> set fs}"

lemma finite_later_taken: "finite (later_taken fs dir stem counter)"
proof -
  have "inj (numbered_path dir stem)"
    by (rule injI) (rule numbered_path_inj)
  then have "finite (numbered_path dir stem -` set fs)"
    by (intro finite_vimageI) simp_all
  moreover have "later_taken fs dir stem counter \<subseteq> numbered_path dir stem -` set fs"
    by (auto simp: later_taken_def)
  ultimately show ?thesis
    by (rule rev_finite_subset)
qed

function find_free :: "path list \<Rightarrow> path \<Rightarrow> string \<Rightarrow> nat \<Rightarrow> path \<Rightarrow> path" where
  "find_free fs dir stem counter output_path =
     (if output_path \<in> set fs
      then find_free fs dir stem (counter + 1) (numbered_path dir stem counter)
      else output_path)"
  by pat_completeness auto
termination
proof (relation "measure (\<lambda>(fs, dir, stem, counter, output_path).
    2 * card (later_taken fs dir stem counter) + (if output_path \<in> set fs then 1 else 0))")
  show "wf (measure (\<lambda>(fs, dir, stem, counter, output_path).
    2 * card (later_taken fs dir stem counter) + (if output_path \<in> set fs then 1 else 0)))"
    by simp
next
  fix fs :: "path list" and dir stem :: string and counter :: nat and output_path :: path
  assume ex: "output_path \<in> set fs"
  have sub: "later_taken fs dir stem (counter + 1) \<subseteq> later_taken fs dir stem counter"
    by (auto simp: later_taken_def)
  have le: "card (later_taken fs dir stem (counter + 1)) \<le> card (later_taken fs dir stem counter)"
    using sub finite_later_taken by (rule card_mono [rotated])
  have strict: "card (later_taken fs dir stem (counter + 1)) < card (later_taken fs dir stem counter)"
    if "numbered_path dir stem counter \<in> set fs"
  proof (rule psubset_card_mono)
    show "finite (later_taken fs dir stem counter)"
      by (rule finite_later_taken)
    have "counter \<in> later_taken fs dir stem counter"
      using that by (simp add: later_taken_def)
    moreover have "counter \<notin> later_taken fs dir stem (counter + 1)"
      by (simp add: later_taken_def)
    ultimately show "later_taken fs dir stem (counter + 1) \<subset> later_taken fs dir stem counter"
      using sub by blast
  qed
  show "((fs, dir, stem, counter + 1, numbered_path dir stem counter),
         (fs, dir, stem, counter, output_path))
        \<in> measure (\<lambda>(fs, dir, stem, counter, output_path).
            2 * card (later_taken fs dir stem counter) + (if output_path \<in> set fs then 1 else 0))"
    using ex le strict by auto
qed

declare find_free.simps [simp del]

definition get_unique_output_path :: "path \<Rightarrow> path \<Rightarrow> path list \<Rightarrow> path" where
  "get_unique_output_path base_path dir fs =
     find_free fs dir (stem_of base_path) 1 (plain_path dir (stem_of base_path))"

subsection \<open>The external tools\<close>

text \<open>
  The script starts three programs with \<^verbatim>\<open>subprocess.run(..., check=True)\<close>. Each
  command line it builds is one constructor: the version query of line 17, the two
  tag copies of lines 34 and 52 (source, destination), the decoder of line 69
  (source, destination) and the encoder of lines 129 and 137 (quality, source,
  destination).
\<close>

datatype cmd =
    ExiftoolVer
  | ExiftoolAll path path
  | ExiftoolDates path path
  | Sips path path
  | Cwebp nat path path

text \<open>
  What a started program does is not part of the script. It is a parameter
  \<open>t\<close> of the model: \<open>t n c\<close> is the behaviour of command \<open>c\<close> when it is the
  \<open>n\<close>-th program started in the run (counting from zero), namely how it ends and
  whether it leaves a file at its destination path. A program that exits with a
  non-zero status makes \<^verbatim>\<open>subprocess.run\<close> raise \<^verbatim>\<open>CalledProcessError\<close>; a
  program that cannot be started makes it raise \<^verbatim>\<open>FileNotFoundError\<close>. The decoder
  and the encoder write one file; \<^verbatim>\<open>exiftool -overwrite_original\<close> rewrites an
  existing file in place and creates none. No program touches any other path.
\<close>

datatype exit_status = Exit0 | ExitNonzero | NotInstalled

type_synonym tools = "nat \<Rightarrow> cmd \<Rightarrow> exit_status \<times> bool"

datatype exn = CalledProcessError cmd | FileNotFoundError | PlainException string

fun dest :: "cmd \<Rightarrow> path option" where
  "dest ExiftoolVer = None"
| "dest (ExiftoolAll src dst) = None"
| "dest (ExiftoolDates src dst) = None"
| "dest (Sips src dst) = Some dst"
| "dest (Cwebp q src dst) = Some dst"

text \<open>
  The state of a run: the paths that exist, and the two counters of lines 112 and
  113. Two history fields are added for stating properties and are read by no
  branch of the model: \<open>log\<close>, the commands started so far in order (its length is
  the index given to \<open>t\<close>), and \<open>jobs\<close>, the pairs of source path and output path
  assigned on line 116 so far.
\<close>

record state =
  files :: "path list"
  successful_conversions :: nat
  metadata_preserved :: nat
  log :: "cmd list"
  jobs :: "(path \<times> path) list"

definition run :: "tools \<Rightarrow> cmd \<Rightarrow> state \<Rightarrow> (exn + unit) \<times> state" where
  "run t c s =
     (let (st, wrote) = t (length (log s)) c;
          s1 = s\<lparr>log := log s @ [c]\<rparr>
      in case st of
           NotInstalled \<Rightarrow> (Inl FileNotFoundError, s1)
         | ExitNonzero \<Rightarrow> (Inl (CalledProcessError c),
             (case dest c of
                Some d \<Rightarrow> if wrote then s1\<lparr>files := List.insert d (files s1)\<rparr> else s1
              | None \<Rightarrow> s1))
         | Exit0 \<Rightarrow> (Inr (),
             (case dest c of
                Some d \<Rightarrow> if wrote then s1\<lparr>files := List.insert d (files s1)\<rparr> else s1
              | None \<Rightarrow> s1)))"

text \<open>\<^verbatim>\<open>Path.unlink()\<close>: removes the file, and raises when there is none.\<close>

definition unlink :: "path \<Rightarrow> state \<Rightarrow> (exn + unit) \<times> state" where
  "unlink p s =
     (if p \<in> set (files s) then (Inr (), s\<lparr>files := removeAll p (files s)\<rparr>)
      else (Inl FileNotFoundError, s))"

subsection \<open>The capability probe (lines 14 to 20)\<close>

text \<open>Both exceptions are caught and give \<^verbatim>\<open>False\<close>.\<close>

definition check_exiftool :: "tools \<Rightarrow> state \<Rightarrow> bool \<times> state" where
  "check_exiftool t s =
     (case run t ExiftoolVer s of
        (Inr _, s1) \<Rightarrow> (True, s1)
      | (Inl (CalledProcessError c), s1) \<Rightarrow> (False, s1)
      | (Inl FileNotFoundError, s1) \<Rightarrow> (False, s1)
      | (Inl (PlainException m), s1) \<Rightarrow> (False, s1))"

subsection \<open>The metadata propagator (lines 30 to 63)\<close>

text \<open>
  Only \<^verbatim>\<open>CalledProcessError\<close> is caught (line 61); any other exception leaves the
  function.
\<close>

definition copy_metadata :: "tools \<Rightarrow> path \<Rightarrow> path \<Rightarrow> state \<Rightarrow> (exn + bool) \<times> state" where
  "copy_metadata t source_path dest_path s =
     (case run t (ExiftoolAll source_path dest_path) s of
        (Inl (CalledProcessError c), s1) \<Rightarrow> (Inr False, s1)
      | (Inl e, s1) \<Rightarrow> (Inl e, s1)
      | (Inr _, s1) \<Rightarrow>
          (case run t (ExiftoolDates source_path dest_path) s1 of
             (Inl (CalledProcessError c), s2) \<Rightarrow> (Inr False, s2)
           | (Inl e, s2) \<Rightarrow> (Inl e, s2)
           | (Inr _, s2) \<Rightarrow> (Inr True, s2)))"

subsection \<open>The decoder step (lines 65 to 79)\<close>

text \<open>
  After a successful \<^verbatim>\<open>sips\<close> the function calls \<^verbatim>\<open>check_exiftool()\<close> itself
  (line 72) and ignores what \<^verbatim>\<open>copy_metadata\<close> returns (line 74). A
  \<^verbatim>\<open>CalledProcessError\<close> anywhere in the body gives \<^verbatim>\<open>False\<close> (line 77).
\<close>

definition convert_heic_to_jpeg :: "tools \<Rightarrow> path \<Rightarrow> path \<Rightarrow> state \<Rightarrow> (exn + bool) \<times> state" where
  "convert_heic_to_jpeg t heic_path jpeg_path s =
     (case run t (Sips heic_path jpeg_path) s of
        (Inl (CalledProcessError c), s1) \<Rightarrow> (Inr False, s1)
      | (Inl e, s1) \<Rightarrow> (Inl e, s1)
      | (Inr _, s1) \<Rightarrow>
          (case check_exiftool t s1 of
             (True, s2) \<Rightarrow>
               (case copy_metadata t heic_path jpeg_path s2 of
                  (Inl (CalledProcessError c), s3) \<Rightarrow> (Inr False, s3)
                | (Inl e, s3) \<Rightarrow> (Inl e, s3)
                | (Inr _, s3) \<Rightarrow> (Inr True, s3))
           | (False, s2) \<Rightarrow> (Inr True, s2)))"

subsection \<open>One candidate (lines 116 to 160)\<close>

definition temp_path :: "path \<Rightarrow> path" where
  "temp_path img_path = join_path output_dir (stem_of img_path @ ''_temp.jpg'')"

text \<open>Lines 119 to 139: the routing and the conversion.\<close>

definition convert :: "tools \<Rightarrow> path \<Rightarrow> path \<Rightarrow> state \<Rightarrow> (exn + unit) \<times> state" where
  "convert t img_path output_path s =
     (if lower (suffix_of img_path) = ''.heic'' then
        (let temp_jpg = temp_path img_path
         in case convert_heic_to_jpeg t img_path temp_jpg s of
              (Inl e, s1) \<Rightarrow> (Inl e, s1)
            | (Inr False, s1) \<Rightarrow> (Inl (PlainException ''Failed to convert HEIC to JPEG''), s1)
            | (Inr True, s1) \<Rightarrow>
                (case run t (Cwebp quality temp_jpg output_path) s1 of
                   (Inl e, s2) \<Rightarrow> (Inl e, s2)
                 | (Inr _, s2) \<Rightarrow> unlink temp_jpg s2))
      else run t (Cwebp quality img_path output_path) s)"

text \<open>Lines 141 to 147: the metadata step, gated by the value cached on line 96.\<close>

definition metadata_step :: "tools \<Rightarrow> bool \<Rightarrow> path \<Rightarrow> path \<Rightarrow> state \<Rightarrow> (exn + unit) \<times> state" where
  "metadata_step t has_exiftool img_path output_path s =
     (if has_exiftool then
        (case copy_metadata t img_path output_path s of
           (Inl e, s1) \<Rightarrow> (Inl e, s1)
         | (Inr True, s1) \<Rightarrow> (Inr (), s1\<lparr>metadata_preserved := metadata_preserved s1 + 1\<rparr>)
         | (Inr False, s1) \<Rightarrow> (Inr (), s1))
      else (Inr (), s))"

text \<open>
  The body of the \<^verbatim>\<open>try\<close> statement up to line 147 (conversion, then metadata
  step), and the whole body, which adds line 149. \<open>Inl e\<close> is the exception that
  reaches one of the two handlers.
\<close>

definition lines_119_147 :: "tools \<Rightarrow> bool \<Rightarrow> path \<Rightarrow> path \<Rightarrow> state \<Rightarrow> (exn + unit) \<times> state" where
  "lines_119_147 t has_exiftool img_path output_path s =
     (case convert t img_path output_path s of
        (Inl e, s1) \<Rightarrow> (Inl e, s1)
      | (Inr _, s1) \<Rightarrow> metadata_step t has_exiftool img_path output_path s1)"

definition try_body :: "tools \<Rightarrow> bool \<Rightarrow> path \<Rightarrow> path \<Rightarrow> state \<Rightarrow> (exn + unit) \<times> state" where
  "try_body t has_exiftool img_path output_path s =
     (case lines_119_147 t has_exiftool img_path output_path s of
        (Inl e, s2) \<Rightarrow> (Inl e, s2)
      | (Inr _, s2) \<Rightarrow>
          (Inr (), s2\<lparr>successful_conversions := successful_conversions s2 + 1\<rparr>))"

text \<open>
  One iteration of the loop: line 116, then the \<^verbatim>\<open>try\<close> statement. \<open>run_job\<close>
  also tells whether an exception reached a handler. Both handlers (lines 151 to
  160) only print, so the state after the iteration is the state at the point
  where the body stopped.
\<close>

definition run_job :: "tools \<Rightarrow> bool \<Rightarrow> path \<Rightarrow> state \<Rightarrow> (exn + unit) \<times> state" where
  "run_job t has_exiftool img_path s =
     (let output_path = get_unique_output_path img_path output_dir (files s)
      in try_body t has_exiftool img_path output_path
           (s\<lparr>jobs := jobs s @ [(img_path, output_path)]\<rparr>))"

definition process_job :: "tools \<Rightarrow> bool \<Rightarrow> path \<Rightarrow> state \<Rightarrow> state" where
  "process_job t has_exiftool img_path s = snd (run_job t has_exiftool img_path s)"

text \<open>
  The state of an iteration when control reaches line 149, or at the point where
  the body stopped before it.
\<close>

definition before_line_149 :: "tools \<Rightarrow> bool \<Rightarrow> path \<Rightarrow> state \<Rightarrow> state" where
  "before_line_149 t has_exiftool img_path s =
     (let output_path = get_unique_output_path img_path output_dir (files s)
      in snd (lines_119_147 t has_exiftool img_path output_path
                (s\<lparr>jobs := jobs s @ [(img_path, output_path)]\<rparr>)))"

fun main_loop :: "tools \<Rightarrow> bool \<Rightarrow> path list \<Rightarrow> state \<Rightarrow> state" where
  "main_loop t has_exiftool [] s = s"
| "main_loop t has_exiftool (img_path # rest) s =
     main_loop t has_exiftool rest (process_job t has_exiftool img_path s)"

subsection \<open>Discovery (lines 104 to 107)\<close>

text \<open>
  \<^verbatim>\<open>Path('.').glob(pattern)\<close> with a pattern without a directory separator matches
  the names of the entries of the directory against the pattern, on a POSIX system
  with case-sensitive comparison and without special treatment of a leading dot.
  In a pattern \<^verbatim>\<open>*\<close> stands for any sequence of characters and \<^verbatim>\<open>?\<close> for any one
  character; the patterns of the script contain no bracket. \<open>entries\<close> is the
  listing of the current directory in the order of the file system.
\<close>

fun fnmatch :: "string \<Rightarrow> string \<Rightarrow> bool" where
  "fnmatch [] [] = True"
| "fnmatch [] (c # cs) = False"
| "fnmatch (p # ps) [] = (p = CHR ''*'' \<and> fnmatch ps [])"
| "fnmatch (p # ps) (c # cs) =
     (if p = CHR ''*'' then fnmatch ps (c # cs) \<or> fnmatch (p # ps) cs
      else if p = CHR ''?'' then fnmatch ps cs
      else p = c \<and> fnmatch ps cs)"

definition glob :: "string \<Rightarrow> string list \<Rightarrow> path list" where
  "glob pattern entries = filter (fnmatch pattern) entries"

definition image_files :: "string list \<Rightarrow> path list" where
  "image_files entries = concat (map (\<lambda>fmt. glob (''*'' @ fmt) entries) formats)"

subsection \<open>The script (lines 92 to 165)\<close>

text \<open>
  \<open>entries\<close> is the listing of the current directory and \<open>fs\<close> the paths that exist
  when the script starts. Line 93 creates the output directory. The result holds
  the three values the summary prints (lines 162 to 165) and the final state.
\<close>

record summary =
  has_exiftool :: bool
  total :: nat
  final :: state

definition initial :: "path list \<Rightarrow> state" where
  "initial fs =
     \<lparr>files = List.insert output_dir fs, successful_conversions = 0, metadata_preserved = 0,
      log = [], jobs = []\<rparr>"

definition main :: "tools \<Rightarrow> string list \<Rightarrow> path list \<Rightarrow> summary" where
  "main t entries fs =
     (case check_exiftool t (initial fs) of
        (has, s1) \<Rightarrow>
          \<lparr>has_exiftool = has, total = length (image_files entries),
           final = main_loop t has (image_files entries) s1\<rparr>)"

text \<open>The state of the run after its first \<open>k\<close> iterations of the loop.\<close>

definition after_jobs :: "nat \<Rightarrow> tools \<Rightarrow> string list \<Rightarrow> path list \<Rightarrow> state" where
  "after_jobs k t entries fs =
     (case check_exiftool t (initial fs) of
        (has, s1) \<Rightarrow> main_loop t has (take k (image_files entries)) s1)"

text \<open>
  For a log \<open>l\<close> whose first command was the \<open>n\<close>-th program started: the number
  of \<^verbatim>\<open>sips\<close> commands in it that exited with status 0.
\<close>

fun successful_decodes :: "tools \<Rightarrow> nat \<Rightarrow> cmd list \<Rightarrow> nat" where
  "successful_decodes t n [] = 0"
| "successful_decodes t n (c # cs) =
     (case c of
        Sips src dst \<Rightarrow> if fst (t n c) = Exit0 then 1 else 0
      | _ \<Rightarrow> 0) + successful_decodes t (Suc n) cs"

text \<open>
  For a log \<open>l\<close> whose first command was the \<open>n\<close>-th program started: the number
  of decoder and encoder commands in it that did not exit with status 0 (a
  non-zero exit, or a program that could not be started).
\<close>

fun failed_conversions :: "tools \<Rightarrow> nat \<Rightarrow> cmd list \<Rightarrow> nat" where
  "failed_conversions t n [] = 0"
| "failed_conversions t n (c # cs) =
     (case c of
        Sips src dst \<Rightarrow> if fst (t n c) = Exit0 then 0 else 1
      | Cwebp q src dst \<Rightarrow> if fst (t n c) = Exit0 then 0 else 1
      | _ \<Rightarrow> 0) + failed_conversions t (Suc n) cs"

text \<open>Probes made minus successful decodes, over the log of a state.\<close>

definition probe_balance :: "tools \<Rightarrow> state \<Rightarrow> int" where
  "probe_balance t s =
     int (count_list (log s) ExiftoolVer) - int (successful_decodes t 0 (log s))"

text \<open>
  The destination of a tag copy, and the property of a log that every tag copy in
  it writes to a path ending in \<open>g\<close>, as the intermediate \<open>_temp.jpg\<close> paths do and
  the \<open>.webp\<close> output paths do not.
\<close>

fun tag_copy_dest :: "cmd \<Rightarrow> path option" where
  "tag_copy_dest (ExiftoolAll src dst) = Some dst"
| "tag_copy_dest (ExiftoolDates src dst) = Some dst"
| "tag_copy_dest c = None"

definition copies_to_temp :: "state \<Rightarrow> bool" where
  "copies_to_temp s = (\<forall>c \<in> set (log s). \<forall>d. tag_copy_dest c = Some d \<longrightarrow> last d = CHR ''g'')"

subsection \<open>Tool behaviours used in the examples\<close>

text \<open>Every program exits with status 0 and writes its output file.\<close>

definition all_ok :: tools where
  "all_ok n c = (Exit0, True)"

text \<open>The encoder exits with a non-zero status and writes nothing.\<close>

definition cwebp_fails :: tools where
  "cwebp_fails n c = (case c of Cwebp q src dst \<Rightarrow> (ExitNonzero, False) | _ \<Rightarrow> (Exit0, True))"

text \<open>The metadata tool is not installed.\<close>

definition no_exiftool :: tools where
  "no_exiftool n c =
     (case c of Sips src dst \<Rightarrow> (Exit0, True) | Cwebp q src dst \<Rightarrow> (Exit0, True)
      | _ \<Rightarrow> (NotInstalled, False))"

text \<open>The tag copies exit with a non-zero status.\<close>

definition copy_fails :: tools where
  "copy_fails n c =
     (case c of ExiftoolAll src dst \<Rightarrow> (ExitNonzero, False)
      | ExiftoolDates src dst \<Rightarrow> (ExitNonzero, False) | _ \<Rightarrow> (Exit0, True))"

text \<open>The copy of the date tags exits with a non-zero status.\<close>

definition dates_fail :: tools where
  "dates_fail n c = (case c of ExiftoolDates src dst \<Rightarrow> (ExitNonzero, False) | _ \<Rightarrow> (Exit0, True))"

text \<open>The decoder exits with a non-zero status and writes nothing.\<close>

definition sips_fails :: tools where
  "sips_fails n c = (case c of Sips src dst \<Rightarrow> (ExitNonzero, False) | _ \<Rightarrow> (Exit0, True))"

text \<open>
  The metadata tool cannot be started when the script starts, and works from then
  on; every other program exits with status 0 and writes its output file.
\<close>

definition late_exiftool :: tools where
  "late_exiftool n c = (if n = 0 then (NotInstalled, False) else (Exit0, True))"

lemma find_free_spec:
  "(output_path \<notin> set fs \<longrightarrow> find_free fs dir stem counter output_path = output_path) \<and>
   (output_path \<in> set fs \<longrightarrow>
      (\<exists>k. counter \<le> k \<and> find_free fs dir stem counter output_path = numbered_path dir stem k \<and>
           numbered_path dir stem k \<notin> set fs \<and>
           (\<forall>j. counter \<le> j \<and> j < k \<longrightarrow> numbered_path dir stem j \<in> set fs)))"
proof (induction fs dir stem counter output_path rule: find_free.induct)
  case (1 fs dir stem counter output_path)
  show ?case
  proof (cases "output_path \<in> set fs")
    case False
    then show ?thesis by (simp add: find_free.simps)
  next
    case True
    note IH = "1.IH" [OF True]
    have unfold: "find_free fs dir stem counter output_path =
        find_free fs dir stem (counter + 1) (numbered_path dir stem counter)"
      using True by (subst find_free.simps) simp
    show ?thesis
    proof (cases "numbered_path dir stem counter \<in> set fs")
      case False
      with IH unfold True show ?thesis
        by (auto intro!: exI [of _ counter])
    next
      case taken: True
      with IH obtain k where k: "counter + 1 \<le> k"
        "find_free fs dir stem (counter + 1) (numbered_path dir stem counter) = numbered_path dir stem k"
        "numbered_path dir stem k \<notin> set fs"
        "\<forall>j. counter + 1 \<le> j \<and> j < k \<longrightarrow> numbered_path dir stem j \<in> set fs"
        by blast
      have "\<forall>j. counter \<le> j \<and> j < k \<longrightarrow> numbered_path dir stem j \<in> set fs"
      proof (intro allI impI)
        fix j assume j: "counter \<le> j \<and> j < k"
        show "numbered_path dir stem j \<in> set fs"
        proof (cases "j = counter")
          case True then show ?thesis using taken by simp
        next
          case False
          with j have "counter + 1 \<le> j \<and> j < k" by simp
          with k(4) show ?thesis by blast
        qed
      qed
      with k unfold True show ?thesis
        by (intro conjI impI) (simp, rule exI [of _ k], simp)
    qed
  qed
qed

lemma get_unique_output_path_fresh: "get_unique_output_path base_path dir fs \<notin> set fs"
  unfolding get_unique_output_path_def
  using find_free_spec [of "plain_path dir (stem_of base_path)" fs dir "stem_of base_path" 1]
  by auto

subsection \<open>What each step leaves unchanged\<close>

lemma run_frame:
  "run t c s = (r, s') \<Longrightarrow>
     successful_conversions s' = successful_conversions s \<and>
     metadata_preserved s' = metadata_preserved s \<and> jobs s' = jobs s"
  by (auto simp: run_def Let_def split: prod.splits exit_status.splits option.splits if_splits)

lemma unlink_frame:
  "unlink p s = (r, s') \<Longrightarrow>
     successful_conversions s' = successful_conversions s \<and>
     metadata_preserved s' = metadata_preserved s \<and> jobs s' = jobs s"
  by (auto simp: unlink_def split: if_splits)

lemma check_exiftool_frame:
  "check_exiftool t s = (r, s') \<Longrightarrow>
     successful_conversions s' = successful_conversions s \<and>
     metadata_preserved s' = metadata_preserved s \<and> jobs s' = jobs s"
  by (auto simp: check_exiftool_def split: prod.splits sum.splits exn.splits dest!: run_frame)

lemma copy_metadata_frame:
  "copy_metadata t a b s = (r, s') \<Longrightarrow>
     successful_conversions s' = successful_conversions s \<and>
     metadata_preserved s' = metadata_preserved s \<and> jobs s' = jobs s"
  by (auto simp: copy_metadata_def split: prod.splits sum.splits exn.splits dest!: run_frame)

lemma convert_heic_to_jpeg_frame:
  "convert_heic_to_jpeg t a b s = (r, s') \<Longrightarrow>
     successful_conversions s' = successful_conversions s \<and>
     metadata_preserved s' = metadata_preserved s \<and> jobs s' = jobs s"
  by (auto simp: convert_heic_to_jpeg_def split: prod.splits sum.splits exn.splits bool.splits
      dest!: run_frame check_exiftool_frame copy_metadata_frame)

lemma convert_frame:
  "convert t img out s = (r, s') \<Longrightarrow>
     successful_conversions s' = successful_conversions s \<and>
     metadata_preserved s' = metadata_preserved s \<and> jobs s' = jobs s"
  by (auto simp: convert_def Let_def split: prod.splits sum.splits bool.splits if_splits
      dest!: run_frame unlink_frame convert_heic_to_jpeg_frame)

lemma metadata_step_counters:
  "metadata_step t has img out s = (r, s') \<Longrightarrow>
     successful_conversions s' = successful_conversions s \<and> jobs s' = jobs s \<and>
     (case r of
        Inl e \<Rightarrow> metadata_preserved s' = metadata_preserved s
      | Inr u \<Rightarrow> metadata_preserved s' = metadata_preserved s \<or>
                 metadata_preserved s' = metadata_preserved s + 1)"
  by (auto simp: metadata_step_def split: prod.splits sum.splits bool.splits if_splits
      dest!: copy_metadata_frame)

lemma lines_119_147_counters:
  "lines_119_147 t has img out s = (r, s') \<Longrightarrow>
     successful_conversions s' = successful_conversions s \<and> jobs s' = jobs s \<and>
     (case r of
        Inl e \<Rightarrow> metadata_preserved s' = metadata_preserved s
      | Inr u \<Rightarrow> metadata_preserved s' = metadata_preserved s \<or>
                 metadata_preserved s' = metadata_preserved s + 1)"
  by (auto simp: lines_119_147_def split: prod.splits sum.splits
      dest!: convert_frame metadata_step_counters)

lemma try_body_counters:
  "try_body t has img out s = (r, s') \<Longrightarrow>
     jobs s' = jobs s \<and>
     (case r of
        Inl e \<Rightarrow> successful_conversions s' = successful_conversions s \<and>
                 metadata_preserved s' = metadata_preserved s
      | Inr u \<Rightarrow> successful_conversions s' = successful_conversions s + 1 \<and>
                 (metadata_preserved s' = metadata_preserved s \<or>
                  metadata_preserved s' = metadata_preserved s + 1))"
  by (auto simp: try_body_def split: prod.splits sum.splits dest!: lines_119_147_counters)

lemma run_job_counters:
  "run_job t has img s = (r, s') \<Longrightarrow>
     jobs s' = jobs s @ [(img, get_unique_output_path img output_dir (files s))] \<and>
     (case r of
        Inl e \<Rightarrow> successful_conversions s' = successful_conversions s \<and>
                 metadata_preserved s' = metadata_preserved s
      | Inr u \<Rightarrow> successful_conversions s' = successful_conversions s + 1 \<and>
                 (metadata_preserved s' = metadata_preserved s \<or>
                  metadata_preserved s' = metadata_preserved s + 1))"
  by (auto simp: run_job_def Let_def split: sum.splits dest!: try_body_counters)

subsection \<open>Started programs\<close>

lemma run_log: "run t c s = (r, s') \<Longrightarrow> log s' = log s @ [c]"
  by (auto simp: run_def Let_def split: prod.splits exit_status.splits option.splits if_splits)

lemma run_exiftool_files:
  "dest c = None \<Longrightarrow> run t c s = (r, s') \<Longrightarrow> files s' = files s"
  by (auto simp: run_def Let_def split: prod.splits exit_status.splits)

lemma run_result:
  "fst (run t c s) =
     (case fst (t (length (log s)) c) of
        Exit0 \<Rightarrow> Inr () | ExitNonzero \<Rightarrow> Inl (CalledProcessError c)
      | NotInstalled \<Rightarrow> Inl FileNotFoundError)"
  by (auto simp: run_def Let_def split: prod.splits exit_status.splits option.splits)

lemma copy_metadata_files: "copy_metadata t a b s = (r, s') \<Longrightarrow> files s' = files s"
  by (auto simp: copy_metadata_def split: prod.splits sum.splits exn.splits
      dest!: run_exiftool_files [rotated])

lemma copy_metadata_nonzero:
  assumes "fst (t (length (log s)) (ExiftoolAll a b)) = ExitNonzero \<or>
           (fst (t (length (log s)) (ExiftoolAll a b)) = Exit0 \<and>
            fst (t (Suc (length (log s))) (ExiftoolDates a b)) = ExitNonzero)"
  shows "fst (copy_metadata t a b s) = Inr False"
proof -
  obtain r1 s1 where r1: "run t (ExiftoolAll a b) s = (r1, s1)"
    by (cases "run t (ExiftoolAll a b) s")
  obtain r2 s2 where r2: "run t (ExiftoolDates a b) s1 = (r2, s2)"
    by (cases "run t (ExiftoolDates a b) s1")
  have l1: "length (log s1) = Suc (length (log s))"
    using run_log [OF r1] by simp
  have e1: "r1 = (case fst (t (length (log s)) (ExiftoolAll a b)) of
        Exit0 \<Rightarrow> Inr () | ExitNonzero \<Rightarrow> Inl (CalledProcessError (ExiftoolAll a b))
      | NotInstalled \<Rightarrow> Inl FileNotFoundError)"
    using run_result [of t "ExiftoolAll a b" s] r1 by simp
  have e2: "r2 = (case fst (t (Suc (length (log s))) (ExiftoolDates a b)) of
        Exit0 \<Rightarrow> Inr () | ExitNonzero \<Rightarrow> Inl (CalledProcessError (ExiftoolDates a b))
      | NotInstalled \<Rightarrow> Inl FileNotFoundError)"
    using run_result [of t "ExiftoolDates a b" s1] r2 l1 by simp
  show ?thesis
    using assms by (auto simp: copy_metadata_def r1 r2 e1 e2)
qed

subsection \<open>The loop\<close>

lemma process_job_counters:
  "jobs (process_job t has img s) = jobs s @ [(img, get_unique_output_path img output_dir (files s))] \<and>
   successful_conversions s \<le> successful_conversions (process_job t has img s) \<and>
   successful_conversions (process_job t has img s) \<le> successful_conversions s + 1 \<and>
   metadata_preserved s \<le> metadata_preserved (process_job t has img s) \<and>
   metadata_preserved (process_job t has img s) - metadata_preserved s
     \<le> successful_conversions (process_job t has img s) - successful_conversions s"
  using run_job_counters [of t has img s "fst (run_job t has img s)" "snd (run_job t has img s)"]
  by (auto simp: process_job_def split: sum.splits)

lemma main_loop_append:
  "main_loop t has (xs @ ys) s = main_loop t has ys (main_loop t has xs s)"
  by (induction xs arbitrary: s) simp_all

lemma main_loop_counters:
  "metadata_preserved s \<le> successful_conversions s \<Longrightarrow>
   metadata_preserved (main_loop t has imgs s) \<le> successful_conversions (main_loop t has imgs s) \<and>
   successful_conversions (main_loop t has imgs s) \<le> successful_conversions s + length imgs"
proof (induction imgs arbitrary: s)
  case Nil
  then show ?case by simp
next
  case (Cons img imgs)
  have step: "metadata_preserved (process_job t has img s) \<le> successful_conversions (process_job t has img s)"
    using Cons.prems process_job_counters [of t has img s] by linarith
  have "successful_conversions (process_job t has img s) \<le> successful_conversions s + 1"
    using process_job_counters [of t has img s] by simp
  with Cons.IH [OF step] show ?case by simp
qed


lemma check_exiftool_initial:
  "check_exiftool t (initial fs) = (has, s1) \<Longrightarrow>
     successful_conversions s1 = 0 \<and> metadata_preserved s1 = 0 \<and> jobs s1 = []"
  by (drule check_exiftool_frame) (simp add: initial_def)

lemma final_after_jobs:
  "final (main t entries fs) = after_jobs (total (main t entries fs)) t entries fs"
  by (simp add: main_def after_jobs_def split: prod.splits)

lemma total_main: "total (main t entries fs) = length (image_files entries)"
  by (simp add: main_def split: prod.splits)

subsection \<open>The log of started programs\<close>

lemma successful_decodes_append:
  "successful_decodes t n (xs @ ys) =
     successful_decodes t n xs + successful_decodes t (n + length xs) ys"
  by (induction xs arbitrary: n) simp_all

lemma run_balance:
  assumes "run t c s = (r, s')"
  shows "probe_balance t s' = probe_balance t s
           + (if c = ExiftoolVer then 1 else 0)
           - (case c of Sips a b \<Rightarrow> (case r of Inr u \<Rightarrow> 1 | Inl e \<Rightarrow> 0) | _ \<Rightarrow> 0)"
proof -
  have l: "log s' = log s @ [c]"
    using run_log [OF assms] .
  have r: "r = (case fst (t (length (log s)) c) of
        Exit0 \<Rightarrow> Inr () | ExitNonzero \<Rightarrow> Inl (CalledProcessError c)
      | NotInstalled \<Rightarrow> Inl FileNotFoundError)"
    using run_result [of t c s] assms by simp
  show ?thesis
    by (cases c; cases "fst (t (length (log s)) c)")
       (simp_all add: probe_balance_def l r successful_decodes_append)
qed

lemma check_exiftool_balance:
  "check_exiftool t s = (r, s') \<Longrightarrow> probe_balance t s' = probe_balance t s + 1"
  by (auto simp: check_exiftool_def split: prod.splits sum.splits exn.splits dest!: run_balance)

lemma copy_metadata_balance:
  "copy_metadata t a b s = (r, s') \<Longrightarrow> probe_balance t s' = probe_balance t s"
  by (auto simp: copy_metadata_def split: prod.splits sum.splits exn.splits dest!: run_balance)

lemma convert_heic_to_jpeg_balance:
  "convert_heic_to_jpeg t a b s = (r, s') \<Longrightarrow> probe_balance t s' = probe_balance t s"
  by (auto simp: convert_heic_to_jpeg_def split: prod.splits sum.splits exn.splits bool.splits
      dest!: run_balance check_exiftool_balance copy_metadata_balance)

lemma unlink_log: "unlink p s = (r, s') \<Longrightarrow> log s' = log s"
  by (auto simp: unlink_def split: if_splits)

lemma unlink_balance:
  "unlink p s = (r, s') \<Longrightarrow> probe_balance t s' = probe_balance t s"
  by (auto simp: unlink_def probe_balance_def split: if_splits)

lemma convert_balance:
  "convert t img out s = (r, s') \<Longrightarrow> probe_balance t s' = probe_balance t s"
  by (auto simp: convert_def Let_def
      split: prod.splits sum.splits bool.splits if_splits
      dest!: run_balance convert_heic_to_jpeg_balance unlink_balance [where t = t])

lemma probe_balance_update [simp]:
  "probe_balance t (s\<lparr>jobs := j\<rparr>) = probe_balance t s"
  "probe_balance t (s\<lparr>successful_conversions := n\<rparr>) = probe_balance t s"
  "probe_balance t (s\<lparr>metadata_preserved := n\<rparr>) = probe_balance t s"
  by (simp_all add: probe_balance_def)

lemma metadata_step_balance:
  "metadata_step t has img out s = (r, s') \<Longrightarrow> probe_balance t s' = probe_balance t s"
  by (auto simp: metadata_step_def split: prod.splits sum.splits bool.splits if_splits
      dest!: copy_metadata_balance)

lemma process_job_balance:
  "probe_balance t (process_job t has img s) = probe_balance t s"
proof -
  obtain r s' where j: "run_job t has img s = (r, s')"
    by (cases "run_job t has img s")
  have "probe_balance t s' = probe_balance t s"
    using j
    by (auto simp: run_job_def Let_def try_body_def lines_119_147_def
        split: prod.splits sum.splits dest!: convert_balance metadata_step_balance)
  then show ?thesis
    by (simp add: process_job_def j)
qed

lemma main_loop_balance:
  "probe_balance t (main_loop t has imgs s) = probe_balance t s"
  by (induction imgs arbitrary: s) (simp_all add: process_job_balance)

lemma run_log_prefix: "run t c s = (r, s') \<Longrightarrow> prefix (log s) (log s')"
  by (drule run_log) simp

lemma check_exiftool_log_prefix: "check_exiftool t s = (r, s') \<Longrightarrow> prefix (log s) (log s')"
  by (auto simp: check_exiftool_def split: prod.splits sum.splits exn.splits dest!: run_log_prefix)

lemma copy_metadata_log_prefix: "copy_metadata t a b s = (r, s') \<Longrightarrow> prefix (log s) (log s')"
  by (auto simp: copy_metadata_def split: prod.splits sum.splits exn.splits
      dest!: run_log_prefix intro: prefix_order.trans)

lemma convert_heic_to_jpeg_log_prefix:
  "convert_heic_to_jpeg t a b s = (r, s') \<Longrightarrow> prefix (log s) (log s')"
  by (auto simp: convert_heic_to_jpeg_def split: prod.splits sum.splits exn.splits bool.splits
      dest!: run_log_prefix check_exiftool_log_prefix copy_metadata_log_prefix
      intro: prefix_order.trans)

lemma convert_log_prefix: "convert t img out s = (r, s') \<Longrightarrow> prefix (log s) (log s')"
  by (auto simp: convert_def Let_def split: prod.splits sum.splits bool.splits if_splits
      dest!: run_log_prefix convert_heic_to_jpeg_log_prefix unlink_log
      intro: prefix_order.trans)

lemma metadata_step_log_prefix:
  "metadata_step t has img out s = (r, s') \<Longrightarrow> prefix (log s) (log s')"
  by (auto simp: metadata_step_def split: prod.splits sum.splits bool.splits if_splits
      dest!: copy_metadata_log_prefix)

lemma process_job_log_prefix: "prefix (log s) (log (process_job t has img s))"
proof -
  obtain r s' where j: "run_job t has img s = (r, s')"
    by (cases "run_job t has img s")
  have "prefix (log s) (log s')"
    using j
    by (auto simp: run_job_def Let_def try_body_def lines_119_147_def
        split: prod.splits sum.splits dest!: convert_log_prefix metadata_step_log_prefix
        intro: prefix_order.trans)
  then show ?thesis
    by (simp add: process_job_def j)
qed

lemma main_loop_log_prefix: "prefix (log s) (log (main_loop t has imgs s))"
proof (induction imgs arbitrary: s)
  case Nil
  show ?case by simp
next
  case (Cons img imgs)
  show ?case
    using process_job_log_prefix [of s t has img] Cons.IH [of "process_job t has img s"]
    by (auto intro: prefix_order.trans)
qed

subsection \<open>Tag copies and their destinations\<close>

lemma last_temp_path: "last (temp_path img) = CHR ''g''"
  by (simp add: temp_path_def join_path_def)

lemma last_plain_path: "last (plain_path dir stem) = CHR ''p''"
  by (simp add: plain_path_def join_path_def)

lemma last_numbered_path: "last (numbered_path dir stem k) = CHR ''p''"
  by (simp add: numbered_path_def join_path_def)

lemma last_get_unique_output_path: "last (get_unique_output_path img dir fs) = CHR ''p''"
  using find_free_spec [of "plain_path dir (stem_of img)" fs dir "stem_of img" 1]
  by (cases "plain_path dir (stem_of img) \<in> set fs")
     (auto simp: get_unique_output_path_def last_plain_path last_numbered_path)

lemma run_copies_to_temp:
  "run t c s = (r, s') \<Longrightarrow> copies_to_temp s \<Longrightarrow>
   (\<forall>d. tag_copy_dest c = Some d \<longrightarrow> last d = CHR ''g'') \<Longrightarrow> copies_to_temp s'"
  by (drule run_log) (auto simp: copies_to_temp_def)

lemma check_exiftool_copies_to_temp:
  "check_exiftool t s = (r, s') \<Longrightarrow> copies_to_temp s \<Longrightarrow> copies_to_temp s'"
  by (auto simp: check_exiftool_def split: prod.splits sum.splits exn.splits
      dest!: run_copies_to_temp)

lemma copy_metadata_copies_to_temp:
  "copy_metadata t a b s = (r, s') \<Longrightarrow> copies_to_temp s \<Longrightarrow> last b = CHR ''g'' \<Longrightarrow>
   copies_to_temp s'"
  by (auto simp: copy_metadata_def split: prod.splits sum.splits exn.splits
      dest!: run_copies_to_temp)

lemma convert_heic_to_jpeg_copies_to_temp:
  "convert_heic_to_jpeg t a b s = (r, s') \<Longrightarrow> copies_to_temp s \<Longrightarrow> last b = CHR ''g'' \<Longrightarrow>
   copies_to_temp s'"
  by (auto simp: convert_heic_to_jpeg_def split: prod.splits sum.splits exn.splits bool.splits
      dest!: run_copies_to_temp check_exiftool_copies_to_temp copy_metadata_copies_to_temp)

lemma unlink_copies_to_temp:
  "unlink p s = (r, s') \<Longrightarrow> copies_to_temp s \<Longrightarrow> copies_to_temp s'"
  by (auto simp: unlink_def copies_to_temp_def split: if_splits)

lemma convert_copies_to_temp:
  "convert t img out s = (r, s') \<Longrightarrow> copies_to_temp s \<Longrightarrow> copies_to_temp s'"
  by (auto simp: convert_def Let_def last_temp_path
      split: prod.splits sum.splits bool.splits if_splits
      dest!: run_copies_to_temp convert_heic_to_jpeg_copies_to_temp unlink_copies_to_temp)

lemma copies_to_temp_update [simp]:
  "copies_to_temp (s\<lparr>jobs := j\<rparr>) = copies_to_temp s"
  "copies_to_temp (s\<lparr>successful_conversions := n\<rparr>) = copies_to_temp s"
  "copies_to_temp (s\<lparr>metadata_preserved := n\<rparr>) = copies_to_temp s"
  by (simp_all add: copies_to_temp_def)

lemma process_job_no_exiftool:
  assumes "copies_to_temp s"
  shows "copies_to_temp (process_job t False img s) \<and>
         metadata_preserved (process_job t False img s) = metadata_preserved s"
proof -
  obtain r s' where j: "run_job t False img s = (r, s')"
    by (cases "run_job t False img s")
  have "copies_to_temp s'"
    using j assms
    by (auto simp: run_job_def Let_def try_body_def lines_119_147_def metadata_step_def
        split: prod.splits sum.splits dest!: convert_copies_to_temp)
  moreover have "metadata_preserved s' = metadata_preserved s"
    using j
    by (auto simp: run_job_def Let_def try_body_def lines_119_147_def metadata_step_def
        split: prod.splits sum.splits dest!: convert_frame)
  ultimately show ?thesis
    by (simp add: process_job_def j)
qed

lemma main_loop_no_exiftool:
  "copies_to_temp s \<Longrightarrow>
   copies_to_temp (main_loop t False imgs s) \<and>
   metadata_preserved (main_loop t False imgs s) = metadata_preserved s"
  by (induction imgs arbitrary: s) (simp_all add: process_job_no_exiftool)

lemma main_loop_jobs_webp:
  "\<forall>j \<in> set (jobs s). last (snd j) = CHR ''p'' \<Longrightarrow>
   \<forall>j \<in> set (jobs (main_loop t has imgs s)). last (snd j) = CHR ''p''"
proof (induction imgs arbitrary: s)
  case Nil
  then show ?case by simp
next
  case (Cons img imgs)
  have "jobs (process_job t has img s)
          = jobs s @ [(img, get_unique_output_path img output_dir (files s))]"
    using process_job_counters [of t has img s] by simp
  then have "\<forall>j \<in> set (jobs (process_job t has img s)). last (snd j) = CHR ''p''"
    using Cons.prems by (auto simp: last_get_unique_output_path)
  then show ?case
    using Cons.IH by simp
qed

subsection \<open>The programs started by the conversion step\<close>


lemma check_exiftool_log: "check_exiftool t s = (r, s') \<Longrightarrow> log s' = log s @ [ExiftoolVer]"
  by (auto simp: check_exiftool_def split: prod.splits sum.splits exn.splits dest!: run_log)



subsection \<open>Files that stay on disk\<close>

lemma run_files_mono: "run t c s = (r, s') \<Longrightarrow> x \<in> set (files s) \<Longrightarrow> x \<in> set (files s')"
  by (auto simp: run_def Let_def split: prod.splits exit_status.splits option.splits if_splits)

lemma unlink_files_keep:
  "unlink p s = (r, s') \<Longrightarrow> x \<in> set (files s) \<Longrightarrow> x \<noteq> p \<Longrightarrow> x \<in> set (files s')"
  by (auto simp: unlink_def split: if_splits)

lemma check_exiftool_files: "check_exiftool t s = (r, s') \<Longrightarrow> files s' = files s"
  by (auto simp: check_exiftool_def split: prod.splits sum.splits exn.splits
      dest!: run_exiftool_files [rotated])

lemma convert_heic_to_jpeg_files_mono:
  "convert_heic_to_jpeg t a b s = (r, s') \<Longrightarrow> x \<in> set (files s) \<Longrightarrow> x \<in> set (files s')"
  by (auto simp: convert_heic_to_jpeg_def split: prod.splits sum.splits exn.splits bool.splits
      dest!: check_exiftool_files copy_metadata_files dest: run_files_mono)

lemma convert_files_keep:
  assumes "convert t img out s = (r, s')" "x \<in> set (files s)" "last x \<noteq> CHR ''g''"
  shows "x \<in> set (files s')"
proof (cases "lower (suffix_of img) = ''.heic''")
  case False
  then show ?thesis
    using assms by (auto simp: convert_def dest: run_files_mono)
next
  case True
  have ne: "x \<noteq> temp_path img"
    using assms(3) last_temp_path by auto
  obtain r1 s1 where d: "convert_heic_to_jpeg t img (temp_path img) s = (r1, s1)"
    by (cases "convert_heic_to_jpeg t img (temp_path img) s")
  have x1: "x \<in> set (files s1)"
    using convert_heic_to_jpeg_files_mono [OF d assms(2)] .
  show ?thesis
  proof (cases "r1 = Inr True")
    case False
    then have "s' = s1"
      using assms(1) by (cases r1) (auto simp: convert_def True d split: bool.splits)
    then show ?thesis using x1 by simp
  next
    case ok: True
    obtain r2 s2 where c: "run t (Cwebp quality (temp_path img) out) s1 = (r2, s2)"
      by (cases "run t (Cwebp quality (temp_path img) out) s1")
    have x2: "x \<in> set (files s2)"
      using run_files_mono [OF c x1] .
    show ?thesis
    proof (cases r2)
      case (Inl e)
      then have "s' = s2"
        using assms(1) by (simp add: convert_def True d ok c)
      then show ?thesis using x2 by simp
    next
      case (Inr u)
      then have "unlink (temp_path img) s2 = (r, s')"
        using assms(1) by (simp add: convert_def True d ok c)
      then show ?thesis
        using unlink_files_keep x2 ne by blast
    qed
  qed
qed

lemma metadata_step_files: "metadata_step t has img out s = (r, s') \<Longrightarrow> files s' = files s"
  by (auto simp: metadata_step_def split: prod.splits sum.splits bool.splits if_splits
      dest!: copy_metadata_files)

lemma process_job_files_keep:
  assumes "x \<in> set (files s)" "last x \<noteq> CHR ''g''"
  shows "x \<in> set (files (process_job t has img s))"
proof -
  let ?out = "get_unique_output_path img output_dir (files s)"
  let ?s0 = "s\<lparr>jobs := jobs s @ [(img, ?out)]\<rparr>"
  obtain r1 s1 where c: "convert t img ?out ?s0 = (r1, s1)"
    by (cases "convert t img ?out ?s0")
  have x1: "x \<in> set (files s1)"
    using convert_files_keep [OF c _ assms(2)] assms(1) by simp
  obtain r2 s2 where m: "metadata_step t has img ?out s1 = (r2, s2)"
    by (cases "metadata_step t has img ?out s1")
  have x2: "x \<in> set (files s2)"
    using metadata_step_files [OF m] x1 by simp
  show ?thesis
    using x1 x2
    by (cases r1; cases r2)
       (simp_all add: process_job_def run_job_def Let_def try_body_def lines_119_147_def c m)
qed

lemma main_loop_files_keep:
  "x \<in> set (files s) \<Longrightarrow> last x \<noteq> CHR ''g'' \<Longrightarrow> x \<in> set (files (main_loop t has imgs s))"
  by (induction imgs arbitrary: s) (simp_all add: process_job_files_keep)

lemma main_loop_jobs_prefix: "prefix (jobs s) (jobs (main_loop t has imgs s))"
proof (induction imgs arbitrary: s)
  case Nil
  show ?case by simp
next
  case (Cons img imgs)
  have "prefix (jobs s) (jobs (process_job t has img s))"
    using process_job_counters [of t has img s] by simp
  then show ?case
    using Cons.IH [of "process_job t has img s"] by (auto intro: prefix_order.trans)
qed

lemma main_loop_jobs_nth:
  "k < length imgs \<Longrightarrow>
   jobs (main_loop t has imgs s) ! (length (jobs s) + k)
     = (imgs ! k, get_unique_output_path (imgs ! k) output_dir
                    (files (main_loop t has (take k imgs) s)))"
proof (induction imgs arbitrary: s k)
  case Nil
  then show ?case by simp
next
  case (Cons img imgs)
  let ?s' = "process_job t has img s"
  have j: "jobs ?s' = jobs s @ [(img, get_unique_output_path img output_dir (files s))]"
    using process_job_counters [of t has img s] by simp
  show ?case
  proof (cases k)
    case 0
    obtain rest where "jobs (main_loop t has imgs ?s') = jobs ?s' @ rest"
      using main_loop_jobs_prefix [of ?s' t has imgs] by (auto simp: prefix_def)
    then show ?thesis
      using 0 j by (simp add: nth_append)
  next
    case (Suc k')
    then have "k' < length imgs"
      using Cons.prems by simp
    from Cons.IH [OF this, of ?s'] show ?thesis
      using Suc j by simp
  qed
qed

subsection \<open>Discovery\<close>

lemma fnmatch_literal:
  "CHR ''*'' \<notin> set p \<Longrightarrow> CHR ''?'' \<notin> set p \<Longrightarrow> fnmatch p n = (p = n)"
  by (induction p n rule: fnmatch.induct) auto

lemma fnmatch_star_literal:
  "CHR ''*'' \<notin> set p \<Longrightarrow> CHR ''?'' \<notin> set p \<Longrightarrow> fnmatch (CHR ''*'' # p) n = suffix p n"
proof (induction n)
  case Nil
  then show ?case
    by (cases p) (auto simp: fnmatch_literal)
next
  case (Cons c cs)
  then show ?case
    by (auto simp: fnmatch_literal suffix_Cons)
qed

lemma formats_literal: "e \<in> set formats \<Longrightarrow> CHR ''*'' \<notin> set e \<and> CHR ''?'' \<notin> set e"
  by (auto simp: formats_def)

lemma glob_format:
  "e \<in> set formats \<Longrightarrow> glob (CHR ''*'' # e) entries = filter (suffix e) entries"
  using formats_literal [of e] by (simp add: glob_def fnmatch_star_literal cong: filter_cong)

lemma image_files_filter:
  "image_files entries = concat (map (\<lambda>e. filter (suffix e) entries) formats)"
  unfolding image_files_def by (rule arg_cong [where f = concat]) (simp add: glob_format)

lemma formats_suffix_free:
  "\<forall>e1 \<in> set formats. \<forall>e2 \<in> set formats. suffix e1 e2 \<longrightarrow> e1 = e2"
  by code_simp

lemma formats_exclusive:
  assumes "e1 \<in> set formats" "e2 \<in> set formats" "suffix e1 n" "suffix e2 n"
  shows "e1 = e2"
proof -
  have "suffix e1 e2 \<or> suffix e2 e1"
    using assms(3,4) by (rule suffix_same_cases)
  then show ?thesis
    using assms(1,2) formats_suffix_free by auto
qed

lemma distinct_concat_filters:
  assumes "distinct entries" "distinct fmts"
    and "\<And>e1 e2 n. e1 \<in> set fmts \<Longrightarrow> e2 \<in> set fmts \<Longrightarrow> suffix e1 n \<Longrightarrow> suffix e2 n \<Longrightarrow> e1 = e2"
  shows "distinct (concat (map (\<lambda>e. filter (suffix e) entries) fmts))"
  using assms(2,3)
proof (induction fmts)
  case Nil
  show ?case by simp
next
  case (Cons e es)
  have "distinct (concat (map (\<lambda>e. filter (suffix e) entries) es))"
    using Cons.IH Cons.prems by simp
  moreover have "set (filter (suffix e) entries)
      \<inter> set (concat (map (\<lambda>e. filter (suffix e) entries) es)) = {}"
  proof (rule ccontr)
    assume "\<not> ?thesis"
    then obtain x e' where "suffix e x" "e' \<in> set es" "suffix e' x"
      by auto
    then have "e = e'"
      using Cons.prems(2) [of e e' x] by simp
    then show False
      using \<open>e' \<in> set es\<close> Cons.prems(1) by simp
  qed
  ultimately show ?case
    using assms(1) by simp
qed

subsection \<open>The programs started by one job\<close>

lemma failed_conversions_append:
  "failed_conversions t n (xs @ ys)
     = failed_conversions t n xs + failed_conversions t (n + length xs) ys"
  by (induction xs arbitrary: n) simp_all

lemma failed_conversions_tag_copies:
  "set l \<subseteq> {ExiftoolVer, ExiftoolAll a b, ExiftoolDates a b} \<Longrightarrow> failed_conversions t n l = 0"
  by (induction l arbitrary: n) auto

lemma copy_metadata_log_hd:
  "copy_metadata t a b s = (r, s') \<Longrightarrow>
   \<exists>l. log s' = log s @ ExiftoolAll a b # l \<and> set l \<subseteq> {ExiftoolDates a b}"
  by (auto simp: copy_metadata_def split: prod.splits sum.splits exn.splits dest!: run_log)

lemma check_exiftool_result:
  "check_exiftool t s = (has, s') \<Longrightarrow> has = (fst (t (length (log s)) ExiftoolVer) = Exit0)"
  using run_result [of t ExiftoolVer s]
  by (auto simp: check_exiftool_def split: prod.splits sum.splits exn.splits exit_status.splits)

lemma convert_heic_to_jpeg_exact:
  assumes "convert_heic_to_jpeg t a b s = (r, s')"
  shows "\<exists>l. log s' = log s @ Sips a b # l \<and>
             set l \<subseteq> {ExiftoolVer, ExiftoolAll a b, ExiftoolDates a b} \<and>
             (ExiftoolAll a b \<in> set l \<longleftrightarrow>
                fst (t (length (log s)) (Sips a b)) = Exit0 \<and>
                fst (t (Suc (length (log s))) ExiftoolVer) = Exit0) \<and>
             (fst (t (length (log s)) (Sips a b)) \<noteq> Exit0 \<longrightarrow> r \<noteq> Inr True)"
proof -
  obtain r1 s1 where r1: "run t (Sips a b) s = (r1, s1)"
    by (cases "run t (Sips a b) s")
  have l1: "log s1 = log s @ [Sips a b]"
    using run_log [OF r1] .
  have e1: "(r1 = Inr ()) = (fst (t (length (log s)) (Sips a b)) = Exit0)"
    using run_result [of t "Sips a b" s] r1 by (auto split: exit_status.splits)
  show ?thesis
  proof (cases r1)
    case (Inl e)
    then have "s' = s1" "r \<noteq> Inr True"
      using assms r1 by (auto simp: convert_heic_to_jpeg_def split: exn.splits)
    moreover have "fst (t (length (log s)) (Sips a b)) \<noteq> Exit0"
      using e1 Inl by simp
    ultimately show ?thesis
      using l1 by (intro exI [of _ "[]"]) simp
  next
    case (Inr u)
    have ok: "fst (t (length (log s)) (Sips a b)) = Exit0"
      using e1 Inr by simp
    obtain has s2 where c: "check_exiftool t s1 = (has, s2)"
      by (cases "check_exiftool t s1")
    have l2: "log s2 = log s @ [Sips a b, ExiftoolVer]"
      using check_exiftool_log [OF c] l1 by simp
    have h: "has = (fst (t (Suc (length (log s))) ExiftoolVer) = Exit0)"
      using check_exiftool_result [OF c] l1 by simp
    show ?thesis
    proof (cases has)
      case False
      then have "s' = s2"
        using assms r1 Inr c by (auto simp: convert_heic_to_jpeg_def)
      then show ?thesis
        using l2 h False ok by (intro exI [of _ "[ExiftoolVer]"]) simp
    next
      case True
      obtain r3 s3 where m: "copy_metadata t a b s2 = (r3, s3)"
        by (cases "copy_metadata t a b s2")
      have "s' = s3"
        using assms r1 Inr c True m
        by (auto simp: convert_heic_to_jpeg_def split: sum.splits exn.splits)
      moreover obtain l where "log s3 = log s2 @ ExiftoolAll a b # l" "set l \<subseteq> {ExiftoolDates a b}"
        using copy_metadata_log_hd [OF m] by blast
      ultimately show ?thesis
        using l2 h True ok by (intro exI [of _ "ExiftoolVer # ExiftoolAll a b # l"]) auto
    qed
  qed
qed

lemma convert_exact:
  assumes "convert t img out s = (r, s')"
  shows "\<exists>seg. log s' = log s @ seg \<and> seg \<noteq> [] \<and>
     hd seg = (if lower (suffix_of img) = ''.heic'' then Sips img (temp_path img)
               else Cwebp quality img out) \<and>
     set seg \<subseteq> {Sips img (temp_path img), ExiftoolVer, ExiftoolAll img (temp_path img),
                 ExiftoolDates img (temp_path img), Cwebp quality (temp_path img) out,
                 Cwebp quality img out} \<and>
     (ExiftoolAll img (temp_path img) \<in> set seg \<longleftrightarrow>
        lower (suffix_of img) = ''.heic'' \<and>
        fst (t (length (log s)) (Sips img (temp_path img))) = Exit0 \<and>
        fst (t (Suc (length (log s))) ExiftoolVer) = Exit0) \<and>
     (0 < failed_conversions t (length (log s)) seg \<longrightarrow> (\<exists>e. r = Inl e))"
proof (cases "lower (suffix_of img) = ''.heic''")
  case False
  then have c: "run t (Cwebp quality img out) s = (r, s')"
    using assms by (simp add: convert_def)
  have l: "log s' = log s @ [Cwebp quality img out]"
    using run_log [OF c] .
  have "fst (t (length (log s)) (Cwebp quality img out)) \<noteq> Exit0 \<longrightarrow> (\<exists>e. r = Inl e)"
    using run_result [of t "Cwebp quality img out" s] c by (auto split: exit_status.splits)
  then show ?thesis
    using False l by (intro exI [of _ "[Cwebp quality img out]"]) (auto split: if_splits)
next
  case True
  let ?tmp = "temp_path img"
  obtain r1 s1 where d: "convert_heic_to_jpeg t img ?tmp s = (r1, s1)"
    by (cases "convert_heic_to_jpeg t img ?tmp s")
  obtain l where l: "log s1 = log s @ Sips img ?tmp # l"
    "set l \<subseteq> {ExiftoolVer, ExiftoolAll img ?tmp, ExiftoolDates img ?tmp}"
    "ExiftoolAll img ?tmp \<in> set l \<longleftrightarrow>
       fst (t (length (log s)) (Sips img ?tmp)) = Exit0 \<and>
       fst (t (Suc (length (log s))) ExiftoolVer) = Exit0"
    "fst (t (length (log s)) (Sips img ?tmp)) \<noteq> Exit0 \<longrightarrow> r1 \<noteq> Inr True"
    using convert_heic_to_jpeg_exact [OF d] by blast
  have f0: "failed_conversions t k l = 0" for k
    using failed_conversions_tag_copies [OF l(2)] .
  show ?thesis
  proof (cases "r1 = Inr True")
    case False
    then have "s' = s1" "\<exists>e. r = Inl e"
      using assms True d by (auto simp: convert_def Let_def split: sum.splits bool.splits)
    then show ?thesis
      using True l(1,2,3) by (intro exI [of _ "Sips img ?tmp # l"]) auto
  next
    case dec: True
    obtain r2 s2 where c: "run t (Cwebp quality ?tmp out) s1 = (r2, s2)"
      by (cases "run t (Cwebp quality ?tmp out) s1")
    have l2: "log s2 = log s1 @ [Cwebp quality ?tmp out]"
      using run_log [OF c] .
    have e2: "fst (t (length (log s1)) (Cwebp quality ?tmp out)) \<noteq> Exit0 \<longrightarrow> (\<exists>e. r2 = Inl e)"
      using run_result [of t "Cwebp quality ?tmp out" s1] c by (auto split: exit_status.splits)
    have sips_ok: "fst (t (length (log s)) (Sips img ?tmp)) = Exit0"
      using l(4) dec by blast
    have ls: "log s' = log s2" and rr: "(\<exists>e. r2 = Inl e) \<longrightarrow> (\<exists>e. r = Inl e)"
      using assms True d dec c
      by (auto simp: convert_def Let_def split: sum.splits dest!: unlink_log)
    have n1: "length (log s1) = Suc (length (log s)) + length l"
      using l(1) by simp
    have fc: "failed_conversions t (length (log s)) (Sips img ?tmp # l @ [Cwebp quality ?tmp out])
        = (if fst (t (length (log s1)) (Cwebp quality ?tmp out)) = Exit0 then 0 else 1)"
      using sips_ok f0 n1 by (simp add: failed_conversions_append)
    have "log s' = log s @ Sips img ?tmp # l @ [Cwebp quality ?tmp out]"
      using ls l2 l(1) by simp
    moreover have "0 < failed_conversions t (length (log s))
        (Sips img ?tmp # l @ [Cwebp quality ?tmp out]) \<longrightarrow> (\<exists>e. r = Inl e)"
      using fc e2 rr by (auto split: if_splits)
    ultimately show ?thesis
      using True l(2,3) by (intro exI [of _ "Sips img ?tmp # l @ [Cwebp quality ?tmp out]"]) auto
  qed
qed

lemma metadata_step_log:
  "metadata_step t has img out s = (r, s') \<Longrightarrow>
   (if has then \<exists>l. log s' = log s @ ExiftoolAll img out # l \<and> set l \<subseteq> {ExiftoolDates img out}
    else log s' = log s)"
  by (auto simp: metadata_step_def split: prod.splits sum.splits bool.splits if_splits
      dest!: copy_metadata_log_hd)

lemma temp_path_not_output: "temp_path img \<noteq> get_unique_output_path img' dir fs"
proof
  assume "temp_path img = get_unique_output_path img' dir fs"
  then have "last (temp_path img) = last (get_unique_output_path img' dir fs)"
    by simp
  then show False
    by (simp add: last_temp_path last_get_unique_output_path)
qed


lemma run_job_exact:
  assumes "run_job t has img s = (r, s')"
  shows "\<exists>seg. log s' = log s @ seg \<and> seg \<noteq> [] \<and>
     hd seg = (if lower (suffix_of img) = ''.heic'' then Sips img (temp_path img)
               else Cwebp quality img (get_unique_output_path img output_dir (files s))) \<and>
     (ExiftoolAll img (get_unique_output_path img output_dir (files s)) \<in> set seg \<longrightarrow> has) \<and>
     (ExiftoolDates img (get_unique_output_path img output_dir (files s)) \<in> set seg \<longrightarrow> has) \<and>
     (has \<and> r = Inr () \<longrightarrow>
        ExiftoolAll img (get_unique_output_path img output_dir (files s)) \<in> set seg) \<and>
     (ExiftoolAll img (temp_path img) \<in> set seg \<longleftrightarrow>
        lower (suffix_of img) = ''.heic'' \<and>
        fst (t (length (log s)) (Sips img (temp_path img))) = Exit0 \<and>
        fst (t (Suc (length (log s))) ExiftoolVer) = Exit0) \<and>
     (0 < failed_conversions t (length (log s)) seg \<longrightarrow> (\<exists>e. r = Inl e))"
proof -
  define out where "out = get_unique_output_path img output_dir (files s)"
  let ?tmp = "temp_path img"
  let ?s0 = "s\<lparr>jobs := jobs s @ [(img, out)]\<rparr>"
  have ne: "?tmp \<noteq> out"
    unfolding out_def by (rule temp_path_not_output)
  obtain r1 s1 where c: "convert t img out ?s0 = (r1, s1)"
    by (cases "convert t img out ?s0")
  have "\<exists>seg. log s1 = log s @ seg \<and> seg \<noteq> [] \<and>
     hd seg = (if lower (suffix_of img) = ''.heic'' then Sips img ?tmp else Cwebp quality img out) \<and>
     set seg \<subseteq> {Sips img ?tmp, ExiftoolVer, ExiftoolAll img ?tmp,
                 ExiftoolDates img ?tmp, Cwebp quality ?tmp out, Cwebp quality img out} \<and>
     (ExiftoolAll img ?tmp \<in> set seg \<longleftrightarrow>
        lower (suffix_of img) = ''.heic'' \<and>
        fst (t (length (log s)) (Sips img ?tmp)) = Exit0 \<and>
        fst (t (Suc (length (log s))) ExiftoolVer) = Exit0) \<and>
     (0 < failed_conversions t (length (log s)) seg \<longrightarrow> (\<exists>e. r1 = Inl e))"
    using convert_exact [OF c] by simp
  then obtain cseg where cs: "log s1 = log s @ cseg" "cseg \<noteq> []"
    "hd cseg = (if lower (suffix_of img) = ''.heic'' then Sips img ?tmp else Cwebp quality img out)"
    "set cseg \<subseteq> {Sips img ?tmp, ExiftoolVer, ExiftoolAll img ?tmp,
                 ExiftoolDates img ?tmp, Cwebp quality ?tmp out, Cwebp quality img out}"
    "ExiftoolAll img ?tmp \<in> set cseg \<longleftrightarrow>
        lower (suffix_of img) = ''.heic'' \<and>
        fst (t (length (log s)) (Sips img ?tmp)) = Exit0 \<and>
        fst (t (Suc (length (log s))) ExiftoolVer) = Exit0"
    "0 < failed_conversions t (length (log s)) cseg \<longrightarrow> (\<exists>e. r1 = Inl e)"
    by (elim exE conjE)
  have no_out: "ExiftoolAll img out \<notin> set cseg" "ExiftoolDates img out \<notin> set cseg"
    using cs(4) ne by auto
  have goal: "\<exists>seg. log s' = log s @ seg \<and> seg \<noteq> [] \<and>
     hd seg = (if lower (suffix_of img) = ''.heic'' then Sips img ?tmp else Cwebp quality img out) \<and>
     (ExiftoolAll img out \<in> set seg \<longrightarrow> has) \<and>
     (ExiftoolDates img out \<in> set seg \<longrightarrow> has) \<and>
     (has \<and> r = Inr () \<longrightarrow> ExiftoolAll img out \<in> set seg) \<and>
     (ExiftoolAll img ?tmp \<in> set seg \<longleftrightarrow>
        lower (suffix_of img) = ''.heic'' \<and>
        fst (t (length (log s)) (Sips img ?tmp)) = Exit0 \<and>
        fst (t (Suc (length (log s))) ExiftoolVer) = Exit0) \<and>
     (0 < failed_conversions t (length (log s)) seg \<longrightarrow> (\<exists>e. r = Inl e))"
  proof (cases r1)
    case (Inl e)
    then have "r = Inl e" "log s' = log s1"
      using assms c
      by (auto simp: run_job_def Let_def try_body_def lines_119_147_def out_def [symmetric])
    then show ?thesis
      using cs(1,2,3,5) no_out by (intro exI [of _ cseg]) simp
  next
    case (Inr u)
    obtain r2 s2 where m: "metadata_step t has img out s1 = (r2, s2)"
      by (cases "metadata_step t has img out s1")
    have ls: "log s' = log s2" and rr: "r = Inr () \<longrightarrow> (\<exists>v. r2 = Inr v)"
      "(\<exists>e. r2 = Inl e) \<longrightarrow> (\<exists>e. r = Inl e)"
      using assms c Inr m
      by (auto simp: run_job_def Let_def try_body_def lines_119_147_def out_def [symmetric]
          split: sum.splits)
    obtain mseg where ms: "log s2 = log s1 @ mseg"
      "has \<longrightarrow> (\<exists>l. mseg = ExiftoolAll img out # l \<and> set l \<subseteq> {ExiftoolDates img out})"
      "\<not> has \<longrightarrow> mseg = []"
      using metadata_step_log [OF m] by (cases has) auto
    have mset: "set mseg \<subseteq> {ExiftoolVer, ExiftoolAll img out, ExiftoolDates img out}"
      using ms(2,3) by (cases has) auto
    have f0: "failed_conversions t k mseg = 0" for k
      using failed_conversions_tag_copies [OF mset] .
    have not_tmp: "ExiftoolAll img ?tmp \<notin> set mseg"
      using mset ne by auto
    have none: "0 < failed_conversions t (length (log s)) cseg \<longrightarrow> False"
      using cs(6) Inr by simp
    have "log s' = log s @ (cseg @ mseg)"
      using ls ms(1) cs(1) by simp
    moreover have "hd (cseg @ mseg)
        = (if lower (suffix_of img) = ''.heic'' then Sips img ?tmp else Cwebp quality img out)"
      using cs(2,3) by simp
    moreover have "ExiftoolAll img out \<in> set (cseg @ mseg) \<longrightarrow> has"
      "ExiftoolDates img out \<in> set (cseg @ mseg) \<longrightarrow> has"
      using no_out ms(3) by auto
    moreover have "has \<and> r = Inr () \<longrightarrow> ExiftoolAll img out \<in> set (cseg @ mseg)"
      using ms(2) by auto
    moreover have "ExiftoolAll img ?tmp \<in> set (cseg @ mseg) \<longleftrightarrow>
        lower (suffix_of img) = ''.heic'' \<and>
        fst (t (length (log s)) (Sips img ?tmp)) = Exit0 \<and>
        fst (t (Suc (length (log s))) ExiftoolVer) = Exit0"
      using cs(5) not_tmp by simp
    moreover have "0 < failed_conversions t (length (log s)) (cseg @ mseg) \<longrightarrow> (\<exists>e. r = Inl e)"
      using none f0 by (simp add: failed_conversions_append)
    ultimately show ?thesis
      using cs(2) by (intro exI [of _ "cseg @ mseg"]) simp
  qed
  then show ?thesis
    unfolding out_def .
qed

lemma after_jobs_Suc:
  assumes "k < length (image_files entries)"
  shows "after_jobs (Suc k) t entries fs
     = process_job t (has_exiftool (main t entries fs)) (image_files entries ! k)
         (after_jobs k t entries fs)"
proof -
  obtain has s1 where p: "check_exiftool t (initial fs) = (has, s1)"
    by (cases "check_exiftool t (initial fs)")
  have "take (Suc k) (image_files entries) = take k (image_files entries) @ [image_files entries ! k]"
    using assms by (rule take_Suc_conv_app_nth)
  then show ?thesis
    by (simp add: after_jobs_def main_def p main_loop_append)
qed

lemma job_log_segment:
  assumes k: "k < length (image_files entries)"
  shows "\<exists>seg. log (after_jobs (Suc k) t entries fs) = log (after_jobs k t entries fs) @ seg \<and>
    (ExiftoolAll (image_files entries ! k)
       (get_unique_output_path (image_files entries ! k) output_dir
          (files (after_jobs k t entries fs))) \<in> set seg \<longrightarrow> has_exiftool (main t entries fs)) \<and>
    (ExiftoolDates (image_files entries ! k)
       (get_unique_output_path (image_files entries ! k) output_dir
          (files (after_jobs k t entries fs))) \<in> set seg \<longrightarrow> has_exiftool (main t entries fs)) \<and>
    (has_exiftool (main t entries fs) \<and>
     successful_conversions (after_jobs (Suc k) t entries fs)
       = Suc (successful_conversions (after_jobs k t entries fs)) \<longrightarrow>
       ExiftoolAll (image_files entries ! k)
         (get_unique_output_path (image_files entries ! k) output_dir
            (files (after_jobs k t entries fs))) \<in> set seg) \<and>
    (ExiftoolAll (image_files entries ! k) (temp_path (image_files entries ! k)) \<in> set seg \<longleftrightarrow>
       lower (suffix_of (image_files entries ! k)) = ''.heic'' \<and>
       fst (t (length (log (after_jobs k t entries fs)))
              (Sips (image_files entries ! k) (temp_path (image_files entries ! k)))) = Exit0 \<and>
       fst (t (Suc (length (log (after_jobs k t entries fs)))) ExiftoolVer) = Exit0)"
proof -
  obtain has s1 where p: "check_exiftool t (initial fs) = (has, s1)"
    by (cases "check_exiftool t (initial fs)")
  have hm: "has_exiftool (main t entries fs) = has"
    by (simp add: main_def p)
  let ?s = "after_jobs k t entries fs"
  let ?img = "image_files entries ! k"
  obtain r s2 where j: "run_job t has ?img ?s = (r, s2)"
    by (cases "run_job t has ?img ?s")
  have step: "after_jobs (Suc k) t entries fs = s2"
    using after_jobs_Suc [OF k, of t fs] j by (simp add: hm process_job_def)
  have "successful_conversions s2 = Suc (successful_conversions ?s) \<longrightarrow> r = Inr ()"
    using run_job_counters [OF j] by (cases r) auto
  then show ?thesis
    using run_job_exact [OF j] unfolding step hm
    by (elim exE conjE) (rule exI, intro conjI; (assumption | blast))
qed

lemmas eval_path =
  get_unique_output_path_def find_free.simps plain_path_def numbered_path_def join_path_def
  output_dir_def stem_of_def suffix_of_def rfind_def str_nat.simps digit_char_def
  lower_def lower_char_def

lemmas eval_model =
  main_def after_jobs_def initial_def check_exiftool_def copy_metadata_def
  convert_heic_to_jpeg_def convert_def metadata_step_def lines_119_147_def try_body_def
  run_job_def process_job_def before_line_149_def run_def unlink_def temp_path_def quality_def
  image_files_def glob_def formats_def

section \<open>Properties\<close>

text \<open>
  C1. The claim is that the intermediate file of a two-step job is gone when the
  job ends, whether the compression succeeded or not. The script removes it on
  line 134, which is reached only when \<^verbatim>\<open>cwebp\<close> has succeeded. In the run over
  the single file \<open>y.heic\<close> in which the decoder succeeds and the encoder exits with
  a non-zero status, the job is not counted as converted and the intermediate file
  \<open>webp_output/y_temp.jpg\<close> is still on disk at the end of the run.
\<close>

theorem intermediate_file_left_behind:
  "temp_path ''y.heic'' = ''webp_output/y_temp.jpg'' \<and>
   ''webp_output/y_temp.jpg'' \<in> set (files (final (main cwebp_fails [''y.heic''] []))) \<and>
   ''webp_output/y.webp'' \<notin> set (files (final (main cwebp_fails [''y.heic''] []))) \<and>
   successful_conversions (final (main cwebp_fails [''y.heic''] [])) = 0"
  by code_simp

text \<open>
  C2 (as amended). The path assigned to a job does not exist on disk at the moment
  it is assigned. So when job \<open>i\<close> has left a file at its output path by the end
  of its iteration, every later job \<open>j\<close> of the run is assigned a different path.
  (A job that leaves no file at its path does not keep the path: see the
  counterexample.)
\<close>

theorem output_paths_of_created_files_differ:
  assumes "i < j" and "j < length (image_files entries)"
    and "snd (jobs (final (main t entries fs)) ! i)
           \<in> set (files (after_jobs (Suc i) t entries fs))"
  shows "snd (jobs (final (main t entries fs)) ! i) \<noteq> snd (jobs (final (main t entries fs)) ! j)"
proof -
  let ?imgs = "image_files entries"
  obtain has s1 where p: "check_exiftool t (initial fs) = (has, s1)"
    by (cases "check_exiftool t (initial fs)")
  have j0: "jobs s1 = []"
    using check_exiftool_initial [OF p] by simp
  have f: "final (main t entries fs) = main_loop t has ?imgs s1"
    by (simp add: main_def p)
  have a: "after_jobs k t entries fs = main_loop t has (take k ?imgs) s1" for k
    by (simp add: after_jobs_def p)
  have nth: "jobs (final (main t entries fs)) ! k
      = (?imgs ! k, get_unique_output_path (?imgs ! k) output_dir (files (after_jobs k t entries fs)))"
    if "k < length ?imgs" for k
    using main_loop_jobs_nth [OF that, of t has s1] by (simp add: f a j0)
  have i: "i < length ?imgs"
    using assms by simp
  let ?oi = "snd (jobs (final (main t entries fs)) ! i)"
  have oi: "?oi = get_unique_output_path (?imgs ! i) output_dir (files (after_jobs i t entries fs))"
    using nth [OF i] by simp
  have oj: "snd (jobs (final (main t entries fs)) ! j)
      = get_unique_output_path (?imgs ! j) output_dir (files (after_jobs j t entries fs))"
    using nth [OF assms(2)] by simp
  have webp: "last ?oi \<noteq> CHR ''g''"
    by (simp add: oi last_get_unique_output_path)
  have "take j ?imgs = take (Suc i) (take j ?imgs) @ drop (Suc i) (take j ?imgs)"
    by (rule append_take_drop_id [symmetric])
  also have "take (Suc i) (take j ?imgs) = take (Suc i) ?imgs"
    using assms(1) by (simp add: min_def)
  finally have "main_loop t has (take j ?imgs) s1
      = main_loop t has (take (Suc i) ?imgs @ drop (Suc i) (take j ?imgs)) s1"
    by (rule arg_cong [where f = "\<lambda>xs. main_loop t has xs s1"])
  also have "\<dots> = main_loop t has (drop (Suc i) (take j ?imgs))
      (main_loop t has (take (Suc i) ?imgs) s1)"
    by (rule main_loop_append)
  finally have later: "after_jobs j t entries fs
      = main_loop t has (drop (Suc i) (take j ?imgs)) (after_jobs (Suc i) t entries fs)"
    by (simp only: a)
  have "?oi \<in> set (files (after_jobs j t entries fs))"
    unfolding later using assms(3) webp by (rule main_loop_files_keep)
  moreover have "snd (jobs (final (main t entries fs)) ! j) \<notin> set (files (after_jobs j t entries fs))"
    unfolding oj by (rule get_unique_output_path_fresh)
  ultimately show ?thesis
    by auto
qed

theorem output_paths_of_created_files_differ_witness:
  "(0::nat) < 1 \<and> 1 < length (image_files [''photo.png'', ''photo.heic'']) \<and>
   snd (jobs (final (main sips_fails [''photo.png'', ''photo.heic''] [])) ! 0)
     \<in> set (files (after_jobs (Suc 0) sips_fails [''photo.png'', ''photo.heic''] [])) \<and>
   snd (jobs (final (main sips_fails [''photo.png'', ''photo.heic''] [])) ! 0)
     \<noteq> snd (jobs (final (main sips_fails [''photo.png'', ''photo.heic''] [])) ! 1) \<and>
   map snd (jobs (final (main sips_fails [''photo.png'', ''photo.heic''] [])))
     = [''webp_output/photo.webp'', ''webp_output/photo_1.webp'']"
proof -
  have order: "(0::nat) < 1"
    by simp
  have two: "1 < length (image_files [''photo.png'', ''photo.heic''])"
    by code_simp
  have left: "snd (jobs (final (main sips_fails [''photo.png'', ''photo.heic''] [])) ! 0)
     \<in> set (files (after_jobs (Suc 0) sips_fails [''photo.png'', ''photo.heic''] []))"
    by code_simp
  have paths: "map snd (jobs (final (main sips_fails [''photo.png'', ''photo.heic''] [])))
     = [''webp_output/photo.webp'', ''webp_output/photo_1.webp'']"
    by code_simp
  have differ: "snd (jobs (final (main sips_fails [''photo.png'', ''photo.heic''] [])) ! 0)
     \<noteq> snd (jobs (final (main sips_fails [''photo.png'', ''photo.heic''] [])) ! 1)"
    using order two left by (rule output_paths_of_created_files_differ)
  show ?thesis
    by (intro conjI order two left differ paths)
qed

text \<open>
  The directory holds \<open>photo.jpg\<close> and \<open>photo.png\<close> and the encoder fails on the
  first one without writing a file: both jobs are assigned
  \<open>webp_output/photo.webp\<close>.
\<close>

theorem output_path_assigned_twice_counterexample:
  "map snd (jobs (final (main cwebp_fails [''photo.jpg'', ''photo.png''] [])))
     = [''webp_output/photo.webp'', ''webp_output/photo.webp''] \<and>
   \<not> distinct (map snd (jobs (final (main cwebp_fails [''photo.jpg'', ''photo.png''] []))))"
  by code_simp

text \<open>
  C3 (as amended). The probe is the first program started, and its result is the
  cached flag \<open>has_exiftool\<close>. The cached flag alone gates the metadata step that
  follows the conversion of every job (lines 141 to 147): a tag copy from the
  source onto the output path of the job is started only if the flag is set, and
  is started in every job that is counted as a successful conversion when the flag
  is set. The probe is not invoked exactly once: the decoder step of a HEIC job
  probes again after every successful \<^verbatim>\<open>sips\<close> call (line 72), so the number of
  probes in a run is one plus the number of \<^verbatim>\<open>sips\<close> calls that exited with
  status 0; and the tag copy from the HEIC source onto the intermediate JPEG is
  started exactly when that fresh probe succeeds, whatever the cached flag is.
\<close>

theorem probe_count_and_gating:
  "count_list (log (final (main t entries fs))) ExiftoolVer
     = 1 + successful_decodes t 0 (log (final (main t entries fs))) \<and>
   (\<exists>l. log (final (main t entries fs)) = ExiftoolVer # l) \<and>
   has_exiftool (main t entries fs) = (fst (t 0 ExiftoolVer) = Exit0) \<and>
   (\<forall>k < length (image_files entries).
      let s = after_jobs k t entries fs;
          s' = after_jobs (Suc k) t entries fs;
          img = image_files entries ! k;
          out = get_unique_output_path img output_dir (files s);
          tmp = temp_path img
      in \<exists>seg. log s' = log s @ seg \<and>
           (ExiftoolAll img out \<in> set seg \<longrightarrow> has_exiftool (main t entries fs)) \<and>
           (ExiftoolDates img out \<in> set seg \<longrightarrow> has_exiftool (main t entries fs)) \<and>
           (has_exiftool (main t entries fs) \<and>
            successful_conversions s' = Suc (successful_conversions s) \<longrightarrow>
              ExiftoolAll img out \<in> set seg) \<and>
           (ExiftoolAll img tmp \<in> set seg \<longleftrightarrow>
              lower (suffix_of img) = ''.heic'' \<and>
              fst (t (length (log s)) (Sips img tmp)) = Exit0 \<and>
              fst (t (Suc (length (log s))) ExiftoolVer) = Exit0))"
proof -
  obtain has s1 where p: "check_exiftool t (initial fs) = (has, s1)"
    by (cases "check_exiftool t (initial fs)")
  have b0: "probe_balance t (initial fs) = 0"
    by (simp add: probe_balance_def initial_def)
  have b1: "probe_balance t s1 = 1"
    using check_exiftool_balance [OF p] b0 by simp
  have f: "final (main t entries fs) = main_loop t has (image_files entries) s1"
    by (simp add: main_def p)
  have "probe_balance t (final (main t entries fs)) = 1"
    by (simp add: f main_loop_balance b1)
  then have c: "count_list (log (final (main t entries fs))) ExiftoolVer
     = 1 + successful_decodes t 0 (log (final (main t entries fs)))"
    by (simp add: probe_balance_def)
  have l1: "log s1 = [ExiftoolVer]"
    using check_exiftool_log [OF p] by (simp add: initial_def)
  have l: "\<exists>l. log (final (main t entries fs)) = ExiftoolVer # l"
    using main_loop_log_prefix [of s1 t has "image_files entries"]
    by (auto simp: f l1 prefix_def)
  have "has = (fst (t 0 ExiftoolVer) = Exit0)"
    using check_exiftool_result [OF p] by (simp add: initial_def)
  moreover have hm: "has_exiftool (main t entries fs) = has"
    by (simp add: main_def p)
  ultimately have h: "has_exiftool (main t entries fs) = (fst (t 0 ExiftoolVer) = Exit0)"
    by simp
  show ?thesis
    unfolding Let_def using c l h job_log_segment [of _ entries t fs] by blast
qed

theorem probe_count_and_gating_witness:
  "(0::nat) < length (image_files [''y.heic'']) \<and>
   lower (suffix_of ''y.heic'') = ''.heic'' \<and>
   has_exiftool (main all_ok [''y.heic''] []) \<and>
   ExiftoolAll ''y.heic'' ''webp_output/y_temp.jpg''
     \<in> set (log (after_jobs (Suc 0) all_ok [''y.heic''] [])) \<and>
   count_list (log (final (main all_ok [''y.heic''] []))) ExiftoolVer
     = 1 + successful_decodes all_ok 0 (log (final (main all_ok [''y.heic''] [])))"
proof -
  note inst = probe_count_and_gating [of all_ok "[''y.heic'']" "[]"]
  have c: "count_list (log (final (main all_ok [''y.heic''] []))) ExiftoolVer
     = 1 + successful_decodes all_ok 0 (log (final (main all_ok [''y.heic''] [])))"
    by (rule conjunct1 [OF inst])
  have "has_exiftool (main all_ok [''y.heic''] []) = (fst (all_ok 0 ExiftoolVer) = Exit0)"
    by (rule conjunct1 [OF conjunct2 [OF conjunct2 [OF inst]]])
  then have h: "has_exiftool (main all_ok [''y.heic''] [])"
    by (simp add: all_ok_def)
  have k: "(0::nat) < length (image_files [''y.heic''])"
    by code_simp
  have i: "image_files [''y.heic''] ! 0 = ''y.heic''"
    by code_simp
  have tp: "temp_path ''y.heic'' = ''webp_output/y_temp.jpg''"
    by code_simp
  have hx: "lower (suffix_of ''y.heic'') = ''.heic''"
    by code_simp
  note job = conjunct2 [OF conjunct2 [OF conjunct2 [OF inst]], rule_format, OF k]
  have "\<exists>seg. log (after_jobs (Suc 0) all_ok [''y.heic''] [])
            = log (after_jobs 0 all_ok [''y.heic''] []) @ seg \<and>
          ExiftoolAll ''y.heic'' ''webp_output/y_temp.jpg'' \<in> set seg"
    using job unfolding Let_def i tp hx by (auto simp: all_ok_def)
  then have m: "ExiftoolAll ''y.heic'' ''webp_output/y_temp.jpg''
      \<in> set (log (after_jobs (Suc 0) all_ok [''y.heic''] []))"
    by auto
  show ?thesis
    by (intro conjI k hx h m c)
qed

text \<open>
  In the run over the single file \<open>y.heic\<close> with all tools succeeding the probe is
  started twice, not once.
\<close>

theorem probe_repeated_counterexample:
  "count_list (log (final (main all_ok [''y.heic''] []))) ExiftoolVer = 2 \<and>
   count_list (log (final (main all_ok [''y.heic''] []))) ExiftoolVer \<noteq> 1"
  by code_simp

text \<open>
  C4 (as amended). If the probe at startup reports the metadata tool unavailable,
  then whatever the tools do afterwards the final \<open>metadata_preserved\<close> is 0, and
  the metadata step of lines 141 to 147 is skipped for every job: the log of the
  run holds no tag copy, of either pass, onto the output path of any job. Tag
  copies are not skipped entirely: in the job of a HEIC candidate the copy from the
  source onto the intermediate JPEG is started exactly when the decoder exits with
  status 0 and the probe made after it (line 72) succeeds.
\<close>

theorem no_probe_no_propagation:
  assumes "\<not> has_exiftool (main t entries fs)"
  shows "metadata_preserved (final (main t entries fs)) = 0 \<and>
         (\<forall>j \<in> set (jobs (final (main t entries fs))). \<forall>src.
            ExiftoolAll src (snd j) \<notin> set (log (final (main t entries fs))) \<and>
            ExiftoolDates src (snd j) \<notin> set (log (final (main t entries fs)))) \<and>
         (\<forall>k < length (image_files entries).
            let s = after_jobs k t entries fs;
                s' = after_jobs (Suc k) t entries fs;
                img = image_files entries ! k;
                tmp = temp_path img
            in \<exists>seg. log s' = log s @ seg \<and>
                 (ExiftoolAll img tmp \<in> set seg \<longleftrightarrow>
                    lower (suffix_of img) = ''.heic'' \<and>
                    fst (t (length (log s)) (Sips img tmp)) = Exit0 \<and>
                    fst (t (Suc (length (log s))) ExiftoolVer) = Exit0))"
proof -
  obtain has s1 where p: "check_exiftool t (initial fs) = (has, s1)"
    by (cases "check_exiftool t (initial fs)")
  have has: "has = False"
    using assms by (simp add: main_def p)
  have f: "final (main t entries fs) = main_loop t False (image_files entries) s1"
    by (simp add: main_def p has)
  have "copies_to_temp (initial fs)"
    by (simp add: copies_to_temp_def initial_def)
  then have c1: "copies_to_temp s1"
    using check_exiftool_copies_to_temp [OF p] by simp
  have z: "metadata_preserved s1 = 0" "jobs s1 = []"
    using check_exiftool_initial [OF p] by simp_all
  have c: "copies_to_temp (final (main t entries fs))"
    and m: "metadata_preserved (final (main t entries fs)) = 0"
    using main_loop_no_exiftool [OF c1, of t "image_files entries"] z by (simp_all add: f)
  have w: "\<forall>j \<in> set (jobs (final (main t entries fs))). last (snd j) = CHR ''p''"
    unfolding f by (rule main_loop_jobs_webp) (simp add: z)
  have "ExiftoolAll src (snd j) \<notin> set (log (final (main t entries fs))) \<and>
        ExiftoolDates src (snd j) \<notin> set (log (final (main t entries fs)))"
    if "j \<in> set (jobs (final (main t entries fs)))" for j src
  proof -
    have "last (snd j) = CHR ''p''"
      using w that by blast
    then have "last (snd j) \<noteq> CHR ''g''"
      by simp
    with c show ?thesis
      unfolding copies_to_temp_def by (metis tag_copy_dest.simps(1,2))
  qed
  then have o: "\<forall>j \<in> set (jobs (final (main t entries fs))). \<forall>src.
      ExiftoolAll src (snd j) \<notin> set (log (final (main t entries fs))) \<and>
      ExiftoolDates src (snd j) \<notin> set (log (final (main t entries fs)))"
    by blast
  have d: "\<forall>k < length (image_files entries).
      \<exists>seg. log (after_jobs (Suc k) t entries fs) = log (after_jobs k t entries fs) @ seg \<and>
        (ExiftoolAll (image_files entries ! k) (temp_path (image_files entries ! k)) \<in> set seg \<longleftrightarrow>
           lower (suffix_of (image_files entries ! k)) = ''.heic'' \<and>
           fst (t (length (log (after_jobs k t entries fs)))
                  (Sips (image_files entries ! k) (temp_path (image_files entries ! k)))) = Exit0 \<and>
           fst (t (Suc (length (log (after_jobs k t entries fs)))) ExiftoolVer) = Exit0)"
  proof (intro allI impI)
    fix k
    assume "k < length (image_files entries)"
    from job_log_segment [OF this, of t fs] show
      "\<exists>seg. log (after_jobs (Suc k) t entries fs) = log (after_jobs k t entries fs) @ seg \<and>
        (ExiftoolAll (image_files entries ! k) (temp_path (image_files entries ! k)) \<in> set seg \<longleftrightarrow>
           lower (suffix_of (image_files entries ! k)) = ''.heic'' \<and>
           fst (t (length (log (after_jobs k t entries fs)))
                  (Sips (image_files entries ! k) (temp_path (image_files entries ! k)))) = Exit0 \<and>
           fst (t (Suc (length (log (after_jobs k t entries fs)))) ExiftoolVer) = Exit0)"
      by (elim exE conjE) (rule exI, intro conjI; assumption)
  qed
  show ?thesis
    unfolding Let_def by (intro conjI m o d)
qed

theorem no_probe_no_propagation_witness:
  "\<not> has_exiftool (main no_exiftool [''z.jpg''] []) \<and>
   successful_conversions (final (main no_exiftool [''z.jpg''] [])) = 1 \<and>
   metadata_preserved (final (main no_exiftool [''z.jpg''] [])) = 0 \<and>
   (''z.jpg'', ''webp_output/z.webp'') \<in> set (jobs (final (main no_exiftool [''z.jpg''] []))) \<and>
   ExiftoolAll ''z.jpg'' ''webp_output/z.webp''
     \<notin> set (log (final (main no_exiftool [''z.jpg''] []))) \<and>
   ExiftoolDates ''z.jpg'' ''webp_output/z.webp''
     \<notin> set (log (final (main no_exiftool [''z.jpg''] [])))"
proof -
  have h: "\<not> has_exiftool (main no_exiftool [''z.jpg''] [])"
    by code_simp
  have j: "(''z.jpg'', ''webp_output/z.webp'')
      \<in> set (jobs (final (main no_exiftool [''z.jpg''] [])))"
    by code_simp
  have n: "successful_conversions (final (main no_exiftool [''z.jpg''] [])) = 1"
    by code_simp
  note inst = no_probe_no_propagation [OF h]
  from inst have m: "metadata_preserved (final (main no_exiftool [''z.jpg''] [])) = 0"
    by (rule conjunct1)
  from inst have a: "\<forall>j \<in> set (jobs (final (main no_exiftool [''z.jpg''] []))). \<forall>src.
      ExiftoolAll src (snd j) \<notin> set (log (final (main no_exiftool [''z.jpg''] []))) \<and>
      ExiftoolDates src (snd j) \<notin> set (log (final (main no_exiftool [''z.jpg''] [])))"
    by (rule conjunct1 [OF conjunct2])
  have "ExiftoolAll ''z.jpg'' (snd (''z.jpg'', ''webp_output/z.webp''))
          \<notin> set (log (final (main no_exiftool [''z.jpg''] []))) \<and>
        ExiftoolDates ''z.jpg'' (snd (''z.jpg'', ''webp_output/z.webp''))
          \<notin> set (log (final (main no_exiftool [''z.jpg''] [])))"
    using bspec [OF a j] by (rule spec)
  then have c: "ExiftoolAll ''z.jpg'' ''webp_output/z.webp''
          \<notin> set (log (final (main no_exiftool [''z.jpg''] []))) \<and>
        ExiftoolDates ''z.jpg'' ''webp_output/z.webp''
          \<notin> set (log (final (main no_exiftool [''z.jpg''] [])))"
    by simp
  show ?thesis
    by (intro conjI h n m j conjunct1 [OF c] conjunct2 [OF c])
qed

text \<open>
  Tag copies as a whole are not skipped when the startup probe fails. In the run
  over the single file \<open>a.heic\<close> in which the metadata tool cannot be started at
  startup and works afterwards, the cached flag is \<^verbatim>\<open>False\<close>, yet the decoder step
  probes again and copies the tags of the source onto the intermediate JPEG, from
  which the encoder then produces the output.
\<close>

theorem tags_copied_after_failed_startup_probe_counterexample:
  "\<not> has_exiftool (main late_exiftool [''a.heic''] []) \<and>
   log (final (main late_exiftool [''a.heic''] []))
     = [ExiftoolVer, Sips ''a.heic'' ''webp_output/a_temp.jpg'', ExiftoolVer,
        ExiftoolAll ''a.heic'' ''webp_output/a_temp.jpg'',
        ExiftoolDates ''a.heic'' ''webp_output/a_temp.jpg'',
        Cwebp 80 ''webp_output/a_temp.jpg'' ''webp_output/a.webp''] \<and>
   successful_conversions (final (main late_exiftool [''a.heic''] [])) = 1 \<and>
   metadata_preserved (final (main late_exiftool [''a.heic''] [])) = 0"
  by code_simp

text \<open>
  C5. Discovery (lines 104 to 107) lists, for each of the eight entries of
  \<open>formats\<close> in turn, the entries of the root directory that match the pattern
  \<open>*\<close> followed by the extension. A name is selected exactly when it is an entry of
  the directory and ends, character for character, with one of the eight
  extensions; no entry is selected twice. So \<open>a.jpeg\<close> and \<open>a.JPEG\<close> are selected
  and \<open>a.Jpeg\<close> is not.
\<close>

theorem discovery_by_literal_suffix:
  "formats = [''.jpg'', ''.jpeg'', ''.png'', ''.heic'', ''.HEIC'', ''.JPG'', ''.JPEG'', ''.PNG''] \<and>
   (n \<in> set (image_files entries) \<longleftrightarrow> n \<in> set entries \<and> (\<exists>e \<in> set formats. suffix e n)) \<and>
   (distinct entries \<longrightarrow> distinct (image_files entries)) \<and>
   image_files [''a.jpeg'', ''a.JPEG'', ''a.Jpeg''] = [''a.jpeg'', ''a.JPEG'']"
proof (intro conjI)
  show "formats = [''.jpg'', ''.jpeg'', ''.png'', ''.heic'', ''.HEIC'', ''.JPG'', ''.JPEG'', ''.PNG'']"
    by (simp add: formats_def)
  show "n \<in> set (image_files entries) \<longleftrightarrow> n \<in> set entries \<and> (\<exists>e \<in> set formats. suffix e n)"
    by (auto simp: image_files_filter)
  show "distinct entries \<longrightarrow> distinct (image_files entries)"
  proof
    assume d: "distinct entries"
    have "distinct formats"
      by (simp add: formats_def)
    with d show "distinct (image_files entries)"
      unfolding image_files_filter by (rule distinct_concat_filters) (rule formats_exclusive)
  qed
  show "image_files [''a.jpeg'', ''a.JPEG'', ''a.Jpeg''] = [''a.jpeg'', ''a.JPEG'']"
    by code_simp
qed

theorem discovery_by_literal_suffix_witness:
  "distinct [''a.jpeg'', ''a.JPEG'', ''a.Jpeg'', ''notes.txt''] \<and>
   distinct (image_files [''a.jpeg'', ''a.JPEG'', ''a.Jpeg'', ''notes.txt'']) \<and>
   ''a.JPEG'' \<in> set (image_files [''a.jpeg'', ''a.JPEG'', ''a.Jpeg'', ''notes.txt'']) \<and>
   ''a.Jpeg'' \<notin> set (image_files [''a.jpeg'', ''a.JPEG'', ''a.Jpeg'', ''notes.txt''])"
proof -
  have d: "distinct [''a.jpeg'', ''a.JPEG'', ''a.Jpeg'', ''notes.txt'']"
    by simp
  have m: "''a.JPEG'' \<in> set (image_files [''a.jpeg'', ''a.JPEG'', ''a.Jpeg'', ''notes.txt''])"
    by code_simp
  note inst = discovery_by_literal_suffix
    [of _ "[''a.jpeg'', ''a.JPEG'', ''a.Jpeg'', ''notes.txt'']"]
  from inst d have "distinct (image_files [''a.jpeg'', ''a.JPEG'', ''a.Jpeg'', ''notes.txt''])"
    by blast
  moreover have "\<not> (\<exists>e \<in> set formats. suffix e ''a.Jpeg'')"
    by code_simp
  with inst [of "''a.Jpeg''"] have
    "''a.Jpeg'' \<notin> set (image_files [''a.jpeg'', ''a.JPEG'', ''a.Jpeg'', ''notes.txt''])"
    by blast
  ultimately show ?thesis
    using d m by blast
qed




text \<open>
  C7. For every source path and output directory, the output namer returns
  \<open>dir/stem.webp\<close> when that path does not exist on disk; otherwise it returns
  \<open>dir/stem_k.webp\<close> for the smallest \<open>k \<ge> 1\<close> such that this path does not exist
  (every \<open>dir/stem_j.webp\<close> with \<open>1 \<le> j < k\<close> exists). In both cases the path it
  returns does not exist on disk when it is returned.
\<close>

theorem namer_first_free_path:
  "(plain_path dir (stem_of base_path) \<notin> set fs \<longrightarrow>
      get_unique_output_path base_path dir fs = plain_path dir (stem_of base_path)) \<and>
   (plain_path dir (stem_of base_path) \<in> set fs \<longrightarrow>
      (\<exists>k. 1 \<le> k \<and>
           get_unique_output_path base_path dir fs = numbered_path dir (stem_of base_path) k \<and>
           numbered_path dir (stem_of base_path) k \<notin> set fs \<and>
           (\<forall>j. 1 \<le> j \<and> j < k \<longrightarrow> numbered_path dir (stem_of base_path) j \<in> set fs))) \<and>
   get_unique_output_path base_path dir fs \<notin> set fs"
  unfolding get_unique_output_path_def
  using find_free_spec [of "plain_path dir (stem_of base_path)" fs dir "stem_of base_path" 1]
  by auto

theorem namer_first_free_path_witness:
  "plain_path output_dir (stem_of ''x.png'') \<notin> set [''webp_output/y.webp''] \<and>
   get_unique_output_path ''x.png'' output_dir [''webp_output/y.webp''] = ''webp_output/x.webp'' \<and>
   plain_path output_dir (stem_of ''x.png'')
     \<in> set [''webp_output/x.webp'', ''webp_output/x_1.webp'', ''webp_output/x_3.webp''] \<and>
   get_unique_output_path ''x.png'' output_dir
     [''webp_output/x.webp'', ''webp_output/x_1.webp'', ''webp_output/x_3.webp'']
     = numbered_path output_dir (stem_of ''x.png'') 2 \<and>
   numbered_path output_dir (stem_of ''x.png'') 1
     \<in> set [''webp_output/x.webp'', ''webp_output/x_1.webp'', ''webp_output/x_3.webp''] \<and>
   numbered_path output_dir (stem_of ''x.png'') 2
     \<notin> set [''webp_output/x.webp'', ''webp_output/x_1.webp'', ''webp_output/x_3.webp'']"
  using namer_first_free_path [of output_dir "''x.png''" "[''webp_output/y.webp'']"]
    namer_first_free_path [of output_dir "''x.png''"
      "[''webp_output/x.webp'', ''webp_output/x_1.webp'', ''webp_output/x_3.webp'']"]
  by (simp add: eval_path)




text \<open>
  C9. Take a job whose conversion step (lines 119 to 139) succeeds, in a run where
  the probe found the metadata tool. If the all-tags pass exits with a non-zero
  status, or the all-tags pass succeeds and the date-tags pass exits with a non-zero
  status, then no exception reaches the handlers, \<open>successful_conversions\<close> is
  incremented, \<open>metadata_preserved\<close> is not, and the files on disk are the ones
  the conversion step left.
\<close>

theorem metadata_failure_keeps_conversion:
  assumes conv: "convert t img out s = (Inr u, s1)"
    and fail: "fst (t (length (log s1)) (ExiftoolAll img out)) = ExitNonzero \<or>
           (fst (t (length (log s1)) (ExiftoolAll img out)) = Exit0 \<and>
            fst (t (Suc (length (log s1))) (ExiftoolDates img out)) = ExitNonzero)"
  shows "fst (try_body t True img out s) = Inr () \<and>
         successful_conversions (snd (try_body t True img out s)) = successful_conversions s + 1 \<and>
         metadata_preserved (snd (try_body t True img out s)) = metadata_preserved s \<and>
         files (snd (try_body t True img out s)) = files s1"
proof -
  obtain r2 s2 where c: "copy_metadata t img out s1 = (r2, s2)"
    by (cases "copy_metadata t img out s1")
  have r2: "r2 = Inr False"
    using copy_metadata_nonzero [OF fail] c by simp
  have same: "successful_conversions s2 = successful_conversions s"
    "metadata_preserved s2 = metadata_preserved s" "files s2 = files s1"
    using copy_metadata_frame [OF c] copy_metadata_files [OF c] convert_frame [OF conv] by simp_all
  show ?thesis
    by (simp add: try_body_def lines_119_147_def metadata_step_def conv c r2 same)
qed

theorem metadata_failure_keeps_conversion_witness:
  "fst (convert copy_fails ''a.jpg'' ''webp_output/a.webp'' (after_jobs 0 copy_fails [''a.jpg''] []))
     = Inr () \<and>
   fst (copy_fails
          (length (log (snd (convert copy_fails ''a.jpg'' ''webp_output/a.webp''
             (after_jobs 0 copy_fails [''a.jpg''] [])))))
          (ExiftoolAll ''a.jpg'' ''webp_output/a.webp'')) = ExitNonzero \<and>
   fst (try_body copy_fails True ''a.jpg'' ''webp_output/a.webp''
          (after_jobs 0 copy_fails [''a.jpg''] [])) = Inr () \<and>
   successful_conversions (snd (try_body copy_fails True ''a.jpg'' ''webp_output/a.webp''
          (after_jobs 0 copy_fails [''a.jpg''] []))) = 1 \<and>
   metadata_preserved (snd (try_body copy_fails True ''a.jpg'' ''webp_output/a.webp''
          (after_jobs 0 copy_fails [''a.jpg''] []))) = 0 \<and>
   files (snd (try_body copy_fails True ''a.jpg'' ''webp_output/a.webp''
          (after_jobs 0 copy_fails [''a.jpg''] []))) = [''webp_output/a.webp'', ''webp_output'']"
proof -
  have conv: "convert copy_fails ''a.jpg'' ''webp_output/a.webp'' (after_jobs 0 copy_fails [''a.jpg''] [])
      = (Inr (), snd (convert copy_fails ''a.jpg'' ''webp_output/a.webp''
                        (after_jobs 0 copy_fails [''a.jpg''] [])))"
    by code_simp
  have fail: "fst (copy_fails
          (length (log (snd (convert copy_fails ''a.jpg'' ''webp_output/a.webp''
             (after_jobs 0 copy_fails [''a.jpg''] [])))))
          (ExiftoolAll ''a.jpg'' ''webp_output/a.webp'')) = ExitNonzero"
    by code_simp
  have start: "successful_conversions (after_jobs 0 copy_fails [''a.jpg''] []) = 0"
    "metadata_preserved (after_jobs 0 copy_fails [''a.jpg''] []) = 0"
    "files (snd (convert copy_fails ''a.jpg'' ''webp_output/a.webp''
        (after_jobs 0 copy_fails [''a.jpg''] []))) = [''webp_output/a.webp'', ''webp_output'']"
    by code_simp+
  have "fst (convert copy_fails ''a.jpg'' ''webp_output/a.webp''
          (after_jobs 0 copy_fails [''a.jpg''] [])) = Inr ()"
    using conv by (metis fst_conv)
  then show ?thesis
    using metadata_failure_keeps_conversion [OF conv disjI1 [OF fail]] fail start by simp
qed

text \<open>
  C10. After any number of completed iterations of the loop, and in the final
  summary, \<open>0 \<le> metadata_preserved \<le> successful_conversions \<le> total\<close>, where
  \<open>total\<close> is the number of discovered candidates. (Inside an iteration, between
  line 144 and line 149, the first inequality can fail; see the counterexample.)
\<close>

theorem counters_ordered_between_jobs:
  "metadata_preserved (after_jobs k t entries fs) \<le> successful_conversions (after_jobs k t entries fs) \<and>
   successful_conversions (after_jobs k t entries fs) \<le> total (main t entries fs) \<and>
   metadata_preserved (final (main t entries fs)) \<le> successful_conversions (final (main t entries fs)) \<and>
   successful_conversions (final (main t entries fs)) \<le> total (main t entries fs)"
proof -
  obtain has s1 where p: "check_exiftool t (initial fs) = (has, s1)"
    by (cases "check_exiftool t (initial fs)")
  have z: "successful_conversions s1 = 0" "metadata_preserved s1 = 0"
    using check_exiftool_initial [OF p] by simp_all
  have le: "metadata_preserved s1 \<le> successful_conversions s1"
    using z by simp
  have a: "after_jobs j t entries fs = main_loop t has (take j (image_files entries)) s1" for j
    by (simp add: after_jobs_def p)
  have "metadata_preserved (after_jobs j t entries fs) \<le> successful_conversions (after_jobs j t entries fs) \<and>
        successful_conversions (after_jobs j t entries fs) \<le> length (image_files entries)" for j
    using main_loop_counters [OF le, of t has "take j (image_files entries)"] z
    by (simp add: a)
  then show ?thesis
    by (simp add: final_after_jobs total_main)
qed

text \<open>
  In the run over the single file \<open>x.png\<close> with all tools succeeding, when the
  first iteration reaches line 149 \<open>metadata_preserved\<close> is 1 and
  \<open>successful_conversions\<close> is still 0.
\<close>

theorem counters_mid_job_counterexample:
  "\<not> metadata_preserved
        (before_line_149 all_ok (has_exiftool (main all_ok [''x.png''] [])) ''x.png''
           (after_jobs 0 all_ok [''x.png''] []))
      \<le> successful_conversions
        (before_line_149 all_ok (has_exiftool (main all_ok [''x.png''] [])) ''x.png''
           (after_jobs 0 all_ok [''x.png''] []))"
  by code_simp

end
